theory Spec2Isabelle
  imports Main
begin

section \<open>Data model of the real-time feed (RealTimeUpdates.tsx)\<close>

text \<open>
  The four channel names of the union type \<^verbatim>\<open>RealTimeUpdate['type']\<close>.
\<close>

datatype update_type = disaster_update | resource_update | report_update | social_media_updated

fun type_name :: "update_type \<Rightarrow> string" where
  "type_name disaster_update = ''disaster-update''"
| "type_name resource_update = ''resource-update''"
| "type_name report_update = ''report-update''"
| "type_name social_media_updated = ''social_media_updated''"

text \<open>
  \<^verbatim>\<open>interface RealTimeUpdate { id: string; type: ...; data: any; timestamp: string }\<close>.
  The payload type \<^verbatim>\<open>any\<close> is the type parameter \<open>'d\<close>: the feed never looks into it.
\<close>

record 'd RealTimeUpdate =
  id_upd :: string
  type_upd :: update_type
  data :: 'd
  timestamp :: string

text \<open>
  What one call of \<^verbatim>\<open>addUpdate\<close> reads from its surroundings: \<^verbatim>\<open>Date.now()\<close> (an integer
  number of milliseconds), \<^verbatim>\<open>Math.random()\<close> (given by the text the template literal renders
  it to) and \<^verbatim>\<open>new Date().toISOString()\<close>.
\<close>

record env =
  Date_now :: int
  Math_random :: string
  Date_toISOString :: string

text \<open>Decimal rendering of an integer, as a template literal renders \<^verbatim>\<open>Date.now()\<close>.\<close>

definition digit_char :: "nat \<Rightarrow> char" where
  "digit_char d = ''0123456789'' ! d"

fun show_nat :: "nat \<Rightarrow> string" where
  "show_nat n = (if n < 10 then [digit_char n] else show_nat (n div 10) @ [digit_char (n mod 10)])"

declare show_nat.simps [simp del]

definition show_int :: "int \<Rightarrow> string" where
  "show_int i = (if i < 0 then CHR ''-'' # show_nat (nat (- i)) else show_nat (nat i))"

text \<open>
  \<^verbatim>\<open>const newUpdate = { id: `${type}-${Date.now()}-${Math.random()}`, type, data,
  timestamp: new Date().toISOString() }\<close>
\<close>

definition newUpdate :: "env \<Rightarrow> update_type \<Rightarrow> 'd \<Rightarrow> 'd RealTimeUpdate" where
  "newUpdate e ty d =
     \<lparr> id_upd = type_name ty @ ''-'' @ show_int (Date_now e) @ ''-'' @ Math_random e,
       type_upd = ty,
       data = d,
       timestamp = Date_toISOString e \<rparr>"

text \<open>
  \<^verbatim>\<open>setUpdates(prev => [newUpdate, ...prev.slice(0, 49)])\<close>: the state updater applied to the
  previous list. \<^verbatim>\<open>slice(0, 49)\<close> keeps the first 49 elements, or all of a shorter array.
\<close>

definition addUpdate :: "env \<Rightarrow> update_type \<Rightarrow> 'd \<Rightarrow> 'd RealTimeUpdate list \<Rightarrow> 'd RealTimeUpdate list" where
  "addUpdate e ty d prev = newUpdate e ty d # take 49 prev"

text \<open>
  The same updater with the bound as a parameter: \<open>cap\<close> records are kept, so the slice
  keeps \<open>cap - 1\<close>. The source is the instance \<open>cap = 50\<close>.
\<close>

definition addUpdate_cap :: "nat \<Rightarrow> env \<Rightarrow> update_type \<Rightarrow> 'd \<Rightarrow> 'd RealTimeUpdate list \<Rightarrow> 'd RealTimeUpdate list" where
  "addUpdate_cap cap e ty d prev = newUpdate e ty d # take (cap - 1) prev"

text \<open>A received message: the readings taken while handling it, its channel, its payload.\<close>

type_synonym 'd message = "env \<times> update_type \<times> 'd"

fun receive :: "'d RealTimeUpdate list \<Rightarrow> 'd message \<Rightarrow> 'd RealTimeUpdate list" where
  "receive prev (e, ty, d) = addUpdate e ty d prev"

fun receive_cap :: "nat \<Rightarrow> 'd RealTimeUpdate list \<Rightarrow> 'd message \<Rightarrow> 'd RealTimeUpdate list" where
  "receive_cap cap prev (e, ty, d) = addUpdate_cap cap e ty d prev"

fun record_of :: "'d message \<Rightarrow> 'd RealTimeUpdate" where
  "record_of (e, ty, d) = newUpdate e ty d"

text \<open>Structured payloads, for the scenarios.\<close>

datatype json = JNull | JBool bool | JNum int | JStr string | JArr "json list" | JObj "(string \<times> json) list"


section \<open>The transport as the components use it (socket.io-client)\<close>

text \<open>
  The callbacks the two components pass to \<^verbatim>\<open>socket.on\<close>, one constructor per arrow
  function of the source.
\<close>

datatype listener =
    Dashboard_connect
  | Dashboard_disconnect
  | RealTimeUpdates_connect
  | RealTimeUpdates_disconnect
  | RealTimeUpdates_update update_type

text \<open>
  A transport: the \<^verbatim>\<open>auth: { token }\<close> it was created with, the library's \<^verbatim>\<open>connected\<close>
  flag, whether \<^verbatim>\<open>close()\<close> was called, and the registered listeners with their event
  names, in registration order.
\<close>

record Socket =
  auth_token :: "string option"
  connected :: bool
  closed :: bool
  listeners :: "(string \<times> listener) list"

definition io :: "string option \<Rightarrow> Socket" where
  "io token = \<lparr> auth_token = token, connected = False, closed = False, listeners = [] \<rparr>"

definition socket_on :: "string \<Rightarrow> listener \<Rightarrow> Socket \<Rightarrow> Socket" where
  "socket_on ev l s = s\<lparr> listeners := listeners s @ [(ev, l)] \<rparr>"

text \<open>\<^verbatim>\<open>socket.off(ev)\<close> with the event name alone removes every listener of that event.\<close>

definition socket_off :: "string \<Rightarrow> Socket \<Rightarrow> Socket" where
  "socket_off ev s = s\<lparr> listeners := filter (\<lambda>(n, l). n \<noteq> ev) (listeners s) \<rparr>"

text \<open>
  What \<^verbatim>\<open>close()\<close> does to the transport itself; on a connected transport it also calls
  the listeners registered for disconnect, see \<open>close_transport\<close> below.
\<close>

definition socket_close :: "Socket \<Rightarrow> Socket" where
  "socket_close s = s\<lparr> connected := False, closed := True \<rparr>"

definition listeners_for :: "string \<Rightarrow> Socket \<Rightarrow> listener list" where
  "listeners_for ev s = map snd (filter (\<lambda>(n, l). n = ev) (listeners s))"

text \<open>The library keeps \<^verbatim>\<open>connected\<close> in step with the connect and disconnect events it emits.\<close>

definition track_connected :: "string \<Rightarrow> Socket \<Rightarrow> Socket" where
  "track_connected ev s =
     (if ev = ''connect'' then s\<lparr> connected := True \<rparr>
      else if ev = ''disconnect'' then s\<lparr> connected := False \<rparr>
      else s)"

section \<open>The two components and their state\<close>

text \<open>
  \<open>transports\<close> holds every transport created by \<^verbatim>\<open>io(...)\<close>; a handle is an index into it.
  \<open>socket\<close> and \<open>isConnected_Dashboard\<close> are the two \<^verbatim>\<open>useState\<close> cells of Dashboard,
  \<open>updates\<close> and \<open>isConnected\<close> those of RealTimeUpdates. The two \<open>hook\<close> fields are what
  React keeps for each \<^verbatim>\<open>useEffect\<close>: \<open>None\<close> while the component is not mounted, otherwise
  the dependency of the last run. For Dashboard that is \<^verbatim>\<open>[token]\<close>, together with the
  \<^verbatim>\<open>newSocket\<close> its cleanup closes; for RealTimeUpdates it is \<^verbatim>\<open>[socket]\<close>, and a cleanup
  exists only when that socket was not null.
\<close>

record 'd world =
  transports :: "Socket list"
  Dashboard_hook :: "(string option \<times> nat) option"
  socket :: "nat option"
  isConnected_Dashboard :: bool
  RealTimeUpdates_hook :: "nat option option"
  updates :: "'d RealTimeUpdate list"
  isConnected :: bool

definition initial :: "'d world" where
  "initial = \<lparr> transports = [], Dashboard_hook = None, socket = None,
     isConnected_Dashboard = False, RealTimeUpdates_hook = None, updates = [],
     isConnected = False \<rparr>"

definition with_socket :: "nat \<Rightarrow> (Socket \<Rightarrow> Socket) \<Rightarrow> 'd world \<Rightarrow> 'd world" where
  "with_socket h f w = w\<lparr> transports := (transports w)[h := f (transports w ! h)] \<rparr>"

text \<open>The body of each listener; \<open>e\<close> are the readings it takes, \<open>d\<close> the payload it is called with.\<close>

fun run_listener :: "env \<Rightarrow> 'd \<Rightarrow> listener \<Rightarrow> 'd world \<Rightarrow> 'd world" where
  "run_listener e d Dashboard_connect w = w\<lparr> isConnected_Dashboard := True \<rparr>"
| "run_listener e d Dashboard_disconnect w = w\<lparr> isConnected_Dashboard := False \<rparr>"
| "run_listener e d RealTimeUpdates_connect w = w\<lparr> isConnected := True \<rparr>"
| "run_listener e d RealTimeUpdates_disconnect w = w\<lparr> isConnected := False \<rparr>"
| "run_listener e d (RealTimeUpdates_update ty) w = w\<lparr> updates := addUpdate e ty d (updates w) \<rparr>"

text \<open>The listeners of one event run one after the other; the \<open>k\<close>-th takes the readings \<open>rd k\<close>.\<close>

fun run_listeners :: "(nat \<Rightarrow> env) \<Rightarrow> 'd \<Rightarrow> nat \<Rightarrow> listener list \<Rightarrow> 'd world \<Rightarrow> 'd world" where
  "run_listeners rd d k [] w = w"
| "run_listeners rd d k (l # ls) w = run_listeners rd d (Suc k) ls (run_listener (rd k) d l w)"

text \<open>
  Transport \<open>h\<close> delivers event \<open>ev\<close> with payload \<open>d\<close>: every listener registered for \<open>ev\<close>
  on it is called. A handle outside the store names no transport, and nothing is delivered.
\<close>

definition emit :: "nat \<Rightarrow> string \<Rightarrow> (nat \<Rightarrow> env) \<Rightarrow> 'd \<Rightarrow> 'd world \<Rightarrow> 'd world" where
  "emit h ev rd d w =
     (if h < length (transports w)
      then run_listeners rd d 0 (listeners_for ev (transports w ! h))
             (with_socket h (track_connected ev) w)
      else w)"

text \<open>
  \<^verbatim>\<open>close()\<close> on transport \<open>h\<close>. The transport is marked disconnected and closed. When it was
  connected, the library then emits disconnect itself, with its reason text as the
  argument. The listeners the source registers for disconnect are the two arrow functions
  without a parameter, so the reason reaches no body; \<open>run_without_payload\<close> is the body of
  the four listeners that take no parameter. A channel listener is only ever registered
  for its own channel (\<open>paired_world\<close> below) and is not called here.
\<close>

fun run_without_payload :: "listener \<Rightarrow> 'd world \<Rightarrow> 'd world" where
  "run_without_payload Dashboard_connect w = w\<lparr> isConnected_Dashboard := True \<rparr>"
| "run_without_payload Dashboard_disconnect w = w\<lparr> isConnected_Dashboard := False \<rparr>"
| "run_without_payload RealTimeUpdates_connect w = w\<lparr> isConnected := True \<rparr>"
| "run_without_payload RealTimeUpdates_disconnect w = w\<lparr> isConnected := False \<rparr>"
| "run_without_payload (RealTimeUpdates_update ty) w = w"

definition close_transport :: "nat \<Rightarrow> 'd world \<Rightarrow> 'd world" where
  "close_transport h w =
     (if h < length (transports w) \<and> connected (transports w ! h)
      then foldl (\<lambda>w' l. run_without_payload l w') (with_socket h socket_close w)
             (listeners_for ''disconnect'' (transports w ! h))
      else with_socket h socket_close w)"

subsection \<open>Dashboard.tsx\<close>

text \<open>
  The effect body: \<^verbatim>\<open>const newSocket = io(url, { auth: { token } }); newSocket.on('connect', ...);
  newSocket.on('disconnect', ...); setSocket(newSocket); return () => { newSocket.close(); }\<close>.
\<close>

definition Dashboard_effect :: "string option \<Rightarrow> 'd world \<Rightarrow> 'd world" where
  "Dashboard_effect token w =
     (let h = length (transports w);
          newSocket = socket_on ''disconnect'' Dashboard_disconnect
                        (socket_on ''connect'' Dashboard_connect (io token))
      in w\<lparr> transports := transports w @ [newSocket],
            socket := Some h,
            Dashboard_hook := Some (token, h) \<rparr>)"

definition Dashboard_cleanup :: "nat \<Rightarrow> 'd world \<Rightarrow> 'd world" where
  "Dashboard_cleanup h w = close_transport h w"

subsection \<open>RealTimeUpdates.tsx\<close>

text \<open>
  The effect body: \<^verbatim>\<open>if (!socket) return; setIsConnected(socket.connected);\<close> then six calls
  of \<^verbatim>\<open>socket.on\<close>, in the order of the source; the cleanup is six calls of \<^verbatim>\<open>socket.off\<close>.
\<close>

definition attach :: "Socket \<Rightarrow> Socket" where
  "attach s =
     socket_on ''social_media_updated'' (RealTimeUpdates_update social_media_updated)
       (socket_on ''report-update'' (RealTimeUpdates_update report_update)
         (socket_on ''resource-update'' (RealTimeUpdates_update resource_update)
           (socket_on ''disaster-update'' (RealTimeUpdates_update disaster_update)
             (socket_on ''disconnect'' RealTimeUpdates_disconnect
               (socket_on ''connect'' RealTimeUpdates_connect s)))))"

definition detach :: "Socket \<Rightarrow> Socket" where
  "detach s =
     socket_off ''social_media_updated''
       (socket_off ''report-update''
         (socket_off ''resource-update''
           (socket_off ''disaster-update''
             (socket_off ''disconnect''
               (socket_off ''connect'' s)))))"

definition RealTimeUpdates_effect :: "nat option \<Rightarrow> 'd world \<Rightarrow> 'd world" where
  "RealTimeUpdates_effect sock w =
     (case sock of
        None \<Rightarrow> w\<lparr> RealTimeUpdates_hook := Some None \<rparr>
      | Some h \<Rightarrow>
          (with_socket h attach
             (w\<lparr> isConnected := (h < length (transports w) \<and> connected (transports w ! h)) \<rparr>))
          \<lparr> RealTimeUpdates_hook := Some (Some h) \<rparr>)"

definition RealTimeUpdates_cleanup :: "nat option \<Rightarrow> 'd world \<Rightarrow> 'd world" where
  "RealTimeUpdates_cleanup sock w = (case sock of None \<Rightarrow> w | Some h \<Rightarrow> with_socket h detach w)"

definition clearUpdates :: "'d world \<Rightarrow> 'd world" where
  "clearUpdates w = w\<lparr> updates := [] \<rparr>"

subsection \<open>Rendering: when the effects run\<close>

text \<open>
  React runs an effect after the component mounts and after every render in which a
  dependency differs from the last run, the previous cleanup first; unmounting runs the
  cleanup and drops the component's state, which starts from the \<^verbatim>\<open>useState\<close> initial
  values at the next mount. RealTimeUpdates is a child of Dashboard and receives
  Dashboard's \<open>socket\<close> cell as its prop.
\<close>

definition RealTimeUpdates_unmount :: "'d world \<Rightarrow> 'd world" where
  "RealTimeUpdates_unmount w =
     (case RealTimeUpdates_hook w of
        None \<Rightarrow> w
      | Some dep \<Rightarrow> (RealTimeUpdates_cleanup dep w)\<lparr> RealTimeUpdates_hook := None \<rparr>)"

definition RealTimeUpdates_render :: "'d world \<Rightarrow> 'd world" where
  "RealTimeUpdates_render w =
     (if Dashboard_hook w = None then w
      else case RealTimeUpdates_hook w of
        None \<Rightarrow> RealTimeUpdates_effect (socket w) (w\<lparr> updates := [], isConnected := False \<rparr>)
      | Some dep \<Rightarrow>
          if dep = socket w then w
          else RealTimeUpdates_effect (socket w) (RealTimeUpdates_cleanup dep w))"

definition Dashboard_render :: "string option \<Rightarrow> 'd world \<Rightarrow> 'd world" where
  "Dashboard_render token w =
     (case Dashboard_hook w of
        None \<Rightarrow> Dashboard_effect token (w\<lparr> socket := None, isConnected_Dashboard := False \<rparr>)
      | Some (token', h) \<Rightarrow>
          if token' = token then w
          else Dashboard_effect token (Dashboard_cleanup h w))"

definition Dashboard_unmount :: "'d world \<Rightarrow> 'd world" where
  "Dashboard_unmount w =
     (case Dashboard_hook w of
        None \<Rightarrow> w
      | Some (token', h) \<Rightarrow>
          (Dashboard_cleanup h (RealTimeUpdates_unmount w))\<lparr> Dashboard_hook := None \<rparr>)"

subsection \<open>Runs\<close>

text \<open>
  Everything that can happen to the two components: a render or unmount of either, an
  event delivered by some transport, a click on the Clear All button (which exists only
  while RealTimeUpdates is mounted).
\<close>

datatype 'd action =
    Render_Dashboard "string option"
  | Unmount_Dashboard
  | Render_RealTimeUpdates
  | Unmount_RealTimeUpdates
  | Emit nat string "nat \<Rightarrow> env" 'd
  | Click_ClearAll

fun step :: "'d world \<Rightarrow> 'd action \<Rightarrow> 'd world" where
  "step w (Render_Dashboard token) = Dashboard_render token w"
| "step w Unmount_Dashboard = Dashboard_unmount w"
| "step w Render_RealTimeUpdates = RealTimeUpdates_render w"
| "step w Unmount_RealTimeUpdates = RealTimeUpdates_unmount w"
| "step w (Emit h ev rd d) = emit h ev rd d w"
| "step w Click_ClearAll = (if RealTimeUpdates_hook w = None then w else clearUpdates w)"

definition run :: "'d action list \<Rightarrow> 'd world" where
  "run acts = foldl step initial acts"


subsection \<open>Well-paired registrations\<close>

text \<open>
  The listeners each component registers, in source order, and the shape the listener
  list of a transport has in every run: Dashboard's two listeners, or none once a
  RealTimeUpdates cleanup has removed them with the connect and disconnect events,
  followed by the six of RealTimeUpdates exactly when its effect is attached there.
\<close>

definition Dashboard_listeners :: "(string \<times> listener) list" where
  "Dashboard_listeners = [(''connect'', Dashboard_connect), (''disconnect'', Dashboard_disconnect)]"

definition RealTimeUpdates_listeners :: "(string \<times> listener) list" where
  "RealTimeUpdates_listeners =
     [(''connect'', RealTimeUpdates_connect), (''disconnect'', RealTimeUpdates_disconnect),
      (''disaster-update'', RealTimeUpdates_update disaster_update),
      (''resource-update'', RealTimeUpdates_update resource_update),
      (''report-update'', RealTimeUpdates_update report_update),
      (''social_media_updated'', RealTimeUpdates_update social_media_updated)]"

definition paired :: "bool \<Rightarrow> Socket \<Rightarrow> bool" where
  "paired attached s \<longleftrightarrow>
     listeners s = Dashboard_listeners @ (if attached then RealTimeUpdates_listeners else [])
     \<or> listeners s = (if attached then RealTimeUpdates_listeners else [])"

definition paired_world :: "'d world \<Rightarrow> bool" where
  "paired_world w \<longleftrightarrow>
     (\<forall>h < length (transports w). paired (RealTimeUpdates_hook w = Some (Some h)) (transports w ! h))
     \<and> (\<forall>h. RealTimeUpdates_hook w = Some (Some h) \<longrightarrow> h < length (transports w))
     \<and> (\<forall>h. socket w = Some h \<longrightarrow> h < length (transports w))"


text \<open>A world in which the feed is attached to no transport.\<close>

definition released :: "'d world \<Rightarrow> bool" where
  "released w \<longleftrightarrow>
     (\<forall>h < length (transports w). paired False (transports w ! h))
     \<and> (\<forall>h. socket w = Some h \<longrightarrow> h < length (transports w))"

subsection \<open>Observing a run\<close>

text \<open>The worlds a list of actions passes through, one per action.\<close>

fun trace :: "'d world \<Rightarrow> 'd action list \<Rightarrow> 'd world list" where
  "trace w [] = []"
| "trace w (a # as) = step w a # trace (step w a) as"

text \<open>
  The transitions of a two-valued signal that starts at \<open>b\<close>: the values it takes each time
  it changes. \<open>alternating b xs\<close> says that \<open>xs\<close> starts with the opposite of \<open>b\<close> and flips
  at every element.
\<close>

fun transitions :: "bool \<Rightarrow> bool list \<Rightarrow> bool list" where
  "transitions b [] = []"
| "transitions b (x # xs) = (if x = b then transitions b xs else x # transitions x xs)"

fun alternating :: "bool \<Rightarrow> bool list \<Rightarrow> bool" where
  "alternating b [] = True"
| "alternating b (x # xs) = (x = (\<not> b) \<and> alternating x xs)"

fun is_Emit :: "'d action \<Rightarrow> bool" where
  "is_Emit (Emit h ev rd d) = True"
| "is_Emit a = False"

text \<open>Readings that are the same at every call.\<close>

definition always :: "env \<Rightarrow> nat \<Rightarrow> env" where
  "always e k = e"

subsection \<open>Index.tsx\<close>

text \<open>
  The page holds \<^verbatim>\<open>isAuthenticated\<close> and \<^verbatim>\<open>token\<close> and renders
  \<^verbatim>\<open>!isAuthenticated ? <LoginForm/> : <Dashboard token={token}/>\<close>; \<open>tree\<close> is the state of
  the components below it. Both handlers set the two cells together, and the page renders
  once with the new values. The mount effect reads the saved token from local storage and
  logs in with it when it is truthy: present and not the empty string. \<^verbatim>\<open>handleLogin\<close> takes
  a string, as its signature \<^verbatim>\<open>(newToken: string)\<close> says.
\<close>

record 'd page =
  isAuthenticated :: bool
  token :: "string option"
  tree :: "'d world"

definition Index_initial :: "'d page" where
  "Index_initial = \<lparr> isAuthenticated = False, token = None, tree = initial \<rparr>"

definition Index_render :: "'d page \<Rightarrow> 'd page" where
  "Index_render p =
     p\<lparr> tree := (if isAuthenticated p then Dashboard_render (token p) (tree p)
                 else Dashboard_unmount (tree p)) \<rparr>"

definition handleLogin :: "string \<Rightarrow> 'd page \<Rightarrow> 'd page" where
  "handleLogin newToken p = Index_render (p\<lparr> token := Some newToken, isAuthenticated := True \<rparr>)"

definition handleLogout :: "'d page \<Rightarrow> 'd page" where
  "handleLogout p = Index_render (p\<lparr> token := None, isAuthenticated := False \<rparr>)"

definition Index_effect :: "string option \<Rightarrow> 'd page \<Rightarrow> 'd page" where
  "Index_effect savedToken p =
     (case savedToken of
        None \<Rightarrow> p
      | Some t \<Rightarrow> if t = [] then p
                  else Index_render (p\<lparr> token := Some t, isAuthenticated := True \<rparr>))"

text \<open>
  What happens to the page: the mount effect, a login, a logout, or an action of the
  components below. Dashboard is rendered and unmounted by the page alone, so those two
  actions are not among the latter.
\<close>

datatype 'd page_action =
    Saved_token "string option"
  | Login string
  | Logout
  | Below "'d action"

fun page_step :: "'d page \<Rightarrow> 'd page_action \<Rightarrow> 'd page" where
  "page_step p (Saved_token t) = Index_effect t p"
| "page_step p (Login t) = handleLogin t p"
| "page_step p Logout = handleLogout p"
| "page_step p (Below (Render_Dashboard t)) = p"
| "page_step p (Below Unmount_Dashboard) = p"
| "page_step p (Below a) = p\<lparr> tree := step (tree p) a \<rparr>"

definition page_run :: "'d page_action list \<Rightarrow> 'd page" where
  "page_run acts = foldl page_step Index_initial acts"

text \<open>Listeners that never touch the feed.\<close>

fun quiet :: "listener \<Rightarrow> bool" where
  "quiet (RealTimeUpdates_update ty) = False"
| "quiet l = True"

text \<open>An event delivered by the transport with handle \<open>h\<close>.\<close>

fun emits_on :: "nat \<Rightarrow> 'd action \<Rightarrow> bool" where
  "emits_on h (Emit h' ev rd d) = (h' = h)"
| "emits_on h a = False"

text \<open>Transport \<open>h\<close> delivering a message on its channel.\<close>

fun deliver :: "nat \<Rightarrow> 'd message \<Rightarrow> 'd action" where
  "deliver h (e, ty, d) = Emit h (type_name ty) (always e) d"

subsection \<open>Who hears a connection event\<close>

text \<open>
  Dashboard hears the connect and disconnect events of a transport as long as its two
  listeners are registered there. \<open>feed_action\<close> marks the renders and unmounts of
  RealTimeUpdates; \<open>only_Dashboard\<close> describes the transports before any of them:
  each carries exactly Dashboard's two listeners.
\<close>

definition Dashboard_listens :: "'d world \<Rightarrow> nat \<Rightarrow> bool" where
  "Dashboard_listens w h \<longleftrightarrow>
     h < length (transports w) \<and> set Dashboard_listeners \<subseteq> set (listeners (transports w ! h))"

fun feed_action :: "'d action \<Rightarrow> bool" where
  "feed_action Render_RealTimeUpdates = True"
| "feed_action Unmount_RealTimeUpdates = True"
| "feed_action a = False"

definition only_Dashboard :: "'d world \<Rightarrow> bool" where
  "only_Dashboard w \<longleftrightarrow>
     RealTimeUpdates_hook w = None
     \<and> (\<forall>h < length (transports w). listeners (transports w ! h) = Dashboard_listeners)"

subsection \<open>Rendering the stored payloads (RealTimeUpdates.tsx)\<close>














subsection \<open>What the page guarantees about transports\<close>

text \<open>
  \<open>static\<close> lists, for every transport, the token it was created with and whether it has
  been closed. \<open>page_ok\<close> ties the page's two cells to the transports: while Dashboard is
  not mounted nobody is authenticated, the token is absent and every transport is closed;
  while it is mounted the token is present, the effect last ran for exactly that token,
  and the transport it created is the only one still open.
\<close>

definition static :: "'d world \<Rightarrow> (string option \<times> bool) list" where
  "static w = map (\<lambda>s. (auth_token s, closed s)) (transports w)"

definition page_ok :: "'d page \<Rightarrow> bool" where
  "page_ok p \<longleftrightarrow>
     (case Dashboard_hook (tree p) of
        None \<Rightarrow>
          \<not> isAuthenticated p \<and> token p = None
          \<and> (\<forall>k < length (static (tree p)). snd (static (tree p) ! k))
      | Some (t, h) \<Rightarrow>
          isAuthenticated p \<and> token p \<noteq> None \<and> t = token p
          \<and> h < length (static (tree p))
          \<and> static (tree p) ! h = (token p, False)
          \<and> (\<forall>k < length (static (tree p)). k \<noteq> h \<longrightarrow> snd (static (tree p) ! k)))"

subsection \<open>Identifiers and sample inputs\<close>

text \<open>The three values a record's identifier is built from.\<close>

definition key_of :: "'d message \<Rightarrow> update_type \<times> int \<times> string" where
  "key_of m = (case m of (e, ty, d) \<Rightarrow> (ty, Date_now e, Math_random e))"

text \<open>Concrete readings and messages for the examples.\<close>

definition sample_env :: env where
  "sample_env = \<lparr> Date_now = 1700000000000, Math_random = ''0.5'',
     Date_toISOString = ''2023-11-14T22:13:20.000Z'' \<rparr>"

definition sample_message :: "nat \<Rightarrow> nat message" where
  "sample_message k = (sample_env, disaster_update, k)"

section \<open>Rendering of identifiers\<close>

text \<open>
  The decimal rendering is injective and contains a minus sign only in front, so the
  three parts of an identifier can be read back from it.
\<close>

lemma digit_char_code: "d < 10 \<Longrightarrow> (of_char (digit_char d) :: nat) = 48 + d"
proof -
  assume "d < 10"
  then have "d \<in> {0,1,2,3,4,5,6,7,8,9}" by auto
  then show ?thesis unfolding digit_char_def by (elim insertE emptyE) simp_all
qed

lemma digit_char_inj:
  assumes "a < 10" and "b < 10" and eq: "digit_char a = digit_char b"
  shows "a = b"
proof -
  have "48 + a = (of_char (digit_char a) :: nat)" using assms(1) by (simp only: digit_char_code)
  also have "\<dots> = of_char (digit_char b)" by (simp only: eq)
  also have "\<dots> = 48 + b" using assms(2) by (simp only: digit_char_code)
  finally show ?thesis by simp
qed

lemma digit_char_not_minus: "d < 10 \<Longrightarrow> digit_char d \<noteq> CHR ''-''"
proof
  assume "d < 10" and "digit_char d = CHR ''-''"
  then have "(of_char (CHR ''-'') :: nat) = 48 + d" using digit_char_code[of d] by simp
  then show False by simp
qed

lemma show_nat_small: "n < 10 \<Longrightarrow> show_nat n = [digit_char n]"
  by (subst show_nat.simps) simp

lemma show_nat_big: "\<not> n < 10 \<Longrightarrow> show_nat n = show_nat (n div 10) @ [digit_char (n mod 10)]"
  by (subst show_nat.simps) simp

lemma show_nat_not_Nil: "show_nat n \<noteq> []"
  by (subst show_nat.simps) simp

lemma show_nat_no_minus: "CHR ''-'' \<notin> set (show_nat n)"
proof (induction n rule: show_nat.induct)
  case (1 n)
  show ?case
  proof (cases "n < 10")
    case True
    then show ?thesis using digit_char_not_minus[of n] by (subst show_nat.simps) auto
  next
    case False
    with 1 have "CHR ''-'' \<notin> set (show_nat (n div 10))" by simp
    moreover have "digit_char (n mod 10) \<noteq> CHR ''-''" by (rule digit_char_not_minus) simp
    ultimately show ?thesis using show_nat_big[OF False] by simp
  qed
qed

lemma show_nat_length:
  assumes "10 \<le> n"
  shows "2 \<le> length (show_nat n)"
proof -
  from assms have "show_nat n = show_nat (n div 10) @ [digit_char (n mod 10)]"
    by (intro show_nat_big) simp
  moreover have "1 \<le> length (show_nat (n div 10))"
    using show_nat_not_Nil[of "n div 10"] by (cases "show_nat (n div 10)") simp_all
  ultimately show ?thesis by simp
qed

lemma show_nat_inj: "show_nat n = show_nat m \<Longrightarrow> n = m"
proof (induction n arbitrary: m rule: show_nat.induct)
  case (1 n)
  show ?case
  proof (cases "n < 10")
    case n: True
    show ?thesis
    proof (cases "m < 10")
      case True
      with n 1(2) show ?thesis by (simp add: show_nat_small digit_char_inj)
    next
      case False
      then have "2 \<le> length (show_nat m)" by (simp add: show_nat_length)
      moreover from n have "length (show_nat n) = 1" by (simp add: show_nat_small)
      ultimately show ?thesis using 1(2) by simp
    qed
  next
    case n: False
    show ?thesis
    proof (cases "m < 10")
      case True
      from n have "2 \<le> length (show_nat n)" by (simp add: show_nat_length)
      moreover from True have "length (show_nat m) = 1" by (simp add: show_nat_small)
      ultimately show ?thesis using 1(2) by simp
    next
      case False
      have "show_nat n = show_nat (n div 10) @ [digit_char (n mod 10)]"
        using n by (rule show_nat_big)
      moreover have "show_nat m = show_nat (m div 10) @ [digit_char (m mod 10)]"
        using False by (rule show_nat_big)
      ultimately have e: "show_nat (n div 10) = show_nat (m div 10)"
        and d: "digit_char (n mod 10) = digit_char (m mod 10)"
        using 1(2) by simp_all
      from 1(1)[OF n e] have "n div 10 = m div 10" .
      moreover from d have "n mod 10 = m mod 10" by (intro digit_char_inj) simp_all
      ultimately show ?thesis by (metis div_mult_mod_eq)
    qed
  qed
qed

lemma show_nat_hd: "hd (show_nat n) \<noteq> CHR ''-''"
  using show_nat_no_minus[of n] show_nat_not_Nil[of n] by (cases "show_nat n") auto

lemma show_int_inj: "show_int i = show_int j \<Longrightarrow> i = j"
proof -
  assume e: "show_int i = show_int j"
  consider "i < 0" "j < 0" | "i < 0" "\<not> j < 0" | "\<not> i < 0" "j < 0" | "\<not> i < 0" "\<not> j < 0" by blast
  then show ?thesis
  proof cases
    case 1
    with e have "show_nat (nat (- i)) = show_nat (nat (- j))" by (simp add: show_int_def)
    then have "nat (- i) = nat (- j)" by (rule show_nat_inj)
    with 1 show ?thesis by simp
  next
    case 2
    with e have "CHR ''-'' # show_nat (nat (- i)) = show_nat (nat j)" by (simp add: show_int_def)
    then have "hd (show_nat (nat j)) = CHR ''-''" by (metis list.sel(1))
    then show ?thesis using show_nat_hd by blast
  next
    case 3
    with e have "show_nat (nat i) = CHR ''-'' # show_nat (nat (- j))" by (simp add: show_int_def)
    then have "hd (show_nat (nat i)) = CHR ''-''" by (metis list.sel(1))
    then show ?thesis using show_nat_hd by blast
  next
    case 4
    with e have "show_nat (nat i) = show_nat (nat j)" by (simp add: show_int_def)
    then have "nat i = nat j" by (rule show_nat_inj)
    with 4 show ?thesis by simp
  qed
qed

lemma split_at_sep:
  "c \<notin> set xs \<Longrightarrow> c \<notin> set ys \<Longrightarrow> xs @ c # r = ys @ c # s \<Longrightarrow> xs = ys \<and> r = s"
proof (induction xs arbitrary: ys)
  case Nil
  then show ?case by (cases ys) auto
next
  case (Cons x xs)
  then show ?case by (cases ys) auto
qed

lemma show_int_sep:
  assumes "show_int i @ CHR ''-'' # r = show_int j @ CHR ''-'' # s"
  shows "i = j \<and> r = s"
proof -
  consider "i < 0" "j < 0" | "i < 0" "\<not> j < 0" | "\<not> i < 0" "j < 0" | "\<not> i < 0" "\<not> j < 0" by blast
  then show ?thesis
  proof cases
    case 1
    with assms have "show_nat (nat (- i)) @ CHR ''-'' # r = show_nat (nat (- j)) @ CHR ''-'' # s"
      by (simp add: show_int_def)
    then have "show_nat (nat (- i)) = show_nat (nat (- j)) \<and> r = s"
      using split_at_sep[OF show_nat_no_minus show_nat_no_minus] by blast
    with 1 show ?thesis using show_nat_inj[of "nat (- i)" "nat (- j)"] by auto
  next
    case 2
    with assms have "CHR ''-'' # show_nat (nat (- i)) @ CHR ''-'' # r = show_nat (nat j) @ CHR ''-'' # s"
      by (simp add: show_int_def)
    then have "hd (show_nat (nat j) @ CHR ''-'' # s) = CHR ''-''" by (metis list.sel(1))
    then show ?thesis using show_nat_hd[of "nat j"] show_nat_not_Nil[of "nat j"] by simp
  next
    case 3
    with assms have "show_nat (nat i) @ CHR ''-'' # r = CHR ''-'' # show_nat (nat (- j)) @ CHR ''-'' # s"
      by (simp add: show_int_def)
    then have "hd (show_nat (nat i) @ CHR ''-'' # r) = CHR ''-''" by (metis list.sel(1))
    then show ?thesis using show_nat_hd[of "nat i"] show_nat_not_Nil[of "nat i"] by simp
  next
    case 4
    with assms have "show_nat (nat i) @ CHR ''-'' # r = show_nat (nat j) @ CHR ''-'' # s"
      by (simp add: show_int_def)
    then have "show_nat (nat i) = show_nat (nat j) \<and> r = s"
      using split_at_sep[OF show_nat_no_minus show_nat_no_minus] by blast
    with 4 show ?thesis using show_nat_inj[of "nat i" "nat j"] by auto
  qed
qed

lemma type_name_prefix: "type_name a @ CHR ''-'' # x = type_name b @ CHR ''-'' # y \<Longrightarrow> a = b \<and> x = y"
  by (cases a; cases b; simp)

lemma id_upd_inj:
  "id_upd (newUpdate e1 t1 d1) = id_upd (newUpdate e2 t2 (d2::'b)) \<longleftrightarrow>
     t1 = t2 \<and> Date_now e1 = Date_now e2 \<and> Math_random e1 = Math_random e2"
proof
  assume "id_upd (newUpdate e1 t1 d1) = id_upd (newUpdate e2 t2 d2)"
  then have "type_name t1 @ CHR ''-'' # (show_int (Date_now e1) @ CHR ''-'' # Math_random e1)
     = type_name t2 @ CHR ''-'' # (show_int (Date_now e2) @ CHR ''-'' # Math_random e2)"
    by (simp add: newUpdate_def)
  then have t: "t1 = t2" and r: "show_int (Date_now e1) @ CHR ''-'' # Math_random e1 = show_int (Date_now e2) @ CHR ''-'' # Math_random e2"
    using type_name_prefix by blast+
  from r have "Date_now e1 = Date_now e2 \<and> Math_random e1 = Math_random e2"
    by (rule show_int_sep)
  with t show "t1 = t2 \<and> Date_now e1 = Date_now e2 \<and> Math_random e1 = Math_random e2" by simp
next
  assume "t1 = t2 \<and> Date_now e1 = Date_now e2 \<and> Math_random e1 = Math_random e2"
  then show "id_upd (newUpdate e1 t1 d1) = id_upd (newUpdate e2 t2 d2)"
    by (simp add: newUpdate_def)
qed

section \<open>Frame lemmas of the operations\<close>

lemma addUpdate_length: "length (addUpdate e ty d prev) = Suc (min 49 (length prev))"
  by (simp add: addUpdate_def min.commute)

lemma run_listener_bounded: "length (updates w) \<le> 50 \<Longrightarrow> length (updates (run_listener e d l w)) \<le> 50"
  by (cases l) (simp_all add: addUpdate_length)

lemma run_listeners_bounded:
  "length (updates w) \<le> 50 \<Longrightarrow> length (updates (run_listeners rd d k ls w)) \<le> 50"
  by (induction ls arbitrary: k w) (simp_all add: run_listener_bounded)

lemma with_socket_fields [simp]:
  "updates (with_socket h f w) = updates w"
  "isConnected (with_socket h f w) = isConnected w"
  "isConnected_Dashboard (with_socket h f w) = isConnected_Dashboard w"
  "socket (with_socket h f w) = socket w"
  "Dashboard_hook (with_socket h f w) = Dashboard_hook w"
  "RealTimeUpdates_hook (with_socket h f w) = RealTimeUpdates_hook w"
  "length (transports (with_socket h f w)) = length (transports w)"
  by (simp_all add: with_socket_def)

lemma emit_bounded: "length (updates w) \<le> 50 \<Longrightarrow> length (updates (emit h ev rd d w)) \<le> 50"
  by (simp add: emit_def run_listeners_bounded)

lemma RealTimeUpdates_cleanup_fields [simp]:
  "updates (RealTimeUpdates_cleanup dep w) = updates w"
  "isConnected (RealTimeUpdates_cleanup dep w) = isConnected w"
  "isConnected_Dashboard (RealTimeUpdates_cleanup dep w) = isConnected_Dashboard w"
  "socket (RealTimeUpdates_cleanup dep w) = socket w"
  "Dashboard_hook (RealTimeUpdates_cleanup dep w) = Dashboard_hook w"
  "RealTimeUpdates_hook (RealTimeUpdates_cleanup dep w) = RealTimeUpdates_hook w"
  "length (transports (RealTimeUpdates_cleanup dep w)) = length (transports w)"
  by (simp_all add: RealTimeUpdates_cleanup_def split: option.splits)

lemma RealTimeUpdates_effect_updates [simp]:
  "updates (RealTimeUpdates_effect sock w) = updates w"
  by (simp add: RealTimeUpdates_effect_def split: option.splits)

lemma RealTimeUpdates_unmount_updates [simp]:
  "updates (RealTimeUpdates_unmount w) = updates w"
  by (simp add: RealTimeUpdates_unmount_def split: option.splits)

lemma RealTimeUpdates_render_bounded:
  "length (updates w) \<le> 50 \<Longrightarrow> length (updates (RealTimeUpdates_render w)) \<le> 50"
  by (simp add: RealTimeUpdates_render_def split: option.splits)

lemma run_without_payload_frame [simp]:
  "updates (run_without_payload l w) = updates w"
  "transports (run_without_payload l w) = transports w"
  "socket (run_without_payload l w) = socket w"
  "Dashboard_hook (run_without_payload l w) = Dashboard_hook w"
  "RealTimeUpdates_hook (run_without_payload l w) = RealTimeUpdates_hook w"
  by (cases l; simp)+

lemma foldl_run_without_payload_frame [simp]:
  "updates (foldl (\<lambda>w' l. run_without_payload l w') w ls) = updates w"
  "transports (foldl (\<lambda>w' l. run_without_payload l w') w ls) = transports w"
  "socket (foldl (\<lambda>w' l. run_without_payload l w') w ls) = socket w"
  "Dashboard_hook (foldl (\<lambda>w' l. run_without_payload l w') w ls) = Dashboard_hook w"
  "RealTimeUpdates_hook (foldl (\<lambda>w' l. run_without_payload l w') w ls) = RealTimeUpdates_hook w"
  by (induction ls arbitrary: w; simp)+

lemma close_transport_frame [simp]:
  "updates (close_transport h w) = updates w"
  "transports (close_transport h w) = (transports w)[h := socket_close (transports w ! h)]"
  "socket (close_transport h w) = socket w"
  "Dashboard_hook (close_transport h w) = Dashboard_hook w"
  "RealTimeUpdates_hook (close_transport h w) = RealTimeUpdates_hook w"
  by (simp_all add: close_transport_def with_socket_def)

lemma Dashboard_cleanup_updates [simp]: "updates (Dashboard_cleanup h w) = updates w"
  by (simp add: Dashboard_cleanup_def)

lemma Dashboard_effect_updates [simp]: "updates (Dashboard_effect tok w) = updates w"
  by (simp add: Dashboard_effect_def Let_def)

lemma Dashboard_render_updates [simp]: "updates (Dashboard_render tok w) = updates w"
  by (simp add: Dashboard_render_def split: option.splits prod.splits)

lemma Dashboard_unmount_updates [simp]: "updates (Dashboard_unmount w) = updates w"
  by (simp add: Dashboard_unmount_def split: option.splits prod.splits)

lemma step_bounded: "length (updates w) \<le> 50 \<Longrightarrow> length (updates (step w a)) \<le> 50"
  by (cases a) (simp_all add: emit_bounded RealTimeUpdates_render_bounded clearUpdates_def)

lemma foldl_step_bounded:
  "length (updates w) \<le> 50 \<Longrightarrow> length (updates (foldl step w acts)) \<le> 50"
  by (induction acts arbitrary: w) (simp_all add: step_bounded)

lemmas world_defs = run_def initial_def Dashboard_render_def Dashboard_effect_def Dashboard_cleanup_def
  close_transport_def
  Dashboard_unmount_def RealTimeUpdates_render_def RealTimeUpdates_effect_def RealTimeUpdates_cleanup_def
  RealTimeUpdates_unmount_def clearUpdates_def emit_def with_socket_def attach_def detach_def
  socket_on_def socket_off_def socket_close_def io_def listeners_for_def track_connected_def Let_def

lemma run_snoc: "run (acts @ [a]) = step (run acts) a"
  by (simp add: run_def)

lemmas page_defs = page_run_def Index_initial_def Index_render_def handleLogin_def handleLogout_def
  Index_effect_def

section \<open>A sequence of messages\<close>

lemma receive_cap_50: "receive = receive_cap 50"
  by (intro ext) (auto simp: addUpdate_def addUpdate_cap_def)

lemma receive_cap_step:
  "0 < cap \<Longrightarrow> receive_cap cap (take cap xs) m = take cap (record_of m # xs)"
proof -
  assume "0 < cap"
  then obtain c where c: "cap = Suc c" by (cases cap) auto
  obtain e ty d where m: "m = (e, ty, d)" by (cases m)
  show ?thesis by (simp add: c m addUpdate_cap_def min_def)
qed

lemma receive_cap_first:
  "0 < cap \<Longrightarrow> receive_cap cap s m = take cap (record_of m # s)"
proof -
  assume "0 < cap"
  then obtain c where c: "cap = Suc c" by (cases cap) auto
  obtain e ty d where m: "m = (e, ty, d)" by (cases m)
  show ?thesis by (simp add: c m addUpdate_cap_def)
qed

lemma foldl_receive_cap:
  "0 < cap \<Longrightarrow> msgs \<noteq> [] \<Longrightarrow>
     foldl (receive_cap cap) s msgs = take cap (rev (map record_of msgs) @ s)"
proof (induction msgs rule: rev_induct)
  case Nil
  then show ?case by simp
next
  case (snoc m ms)
  show ?case
  proof (cases "ms = []")
    case True
    with snoc.prems show ?thesis by (simp add: receive_cap_first)
  next
    case False
    with snoc have "foldl (receive_cap cap) s ms = take cap (rev (map record_of ms) @ s)" by simp
    then have "foldl (receive_cap cap) s (ms @ [m]) = receive_cap cap (take cap (rev (map record_of ms) @ s)) m"
      by (simp only: foldl_append foldl.simps)
    also have "\<dots> = take cap (record_of m # (rev (map record_of ms) @ s))"
      using snoc.prems(1) by (rule receive_cap_step)
    also have "record_of m # (rev (map record_of ms) @ s) = rev (map record_of (ms @ [m])) @ s"
      by simp
    finally show ?thesis .
  qed
qed

lemma foldl_receive_recent:
  assumes "0 < cap" and "cap \<le> length msgs"
  shows "foldl (receive_cap cap) s msgs = rev (map record_of (drop (length msgs - cap) msgs))"
proof -
  from assms have "msgs \<noteq> []" by auto
  with assms have "foldl (receive_cap cap) s msgs = take cap (rev (map record_of msgs) @ s)"
    by (simp add: foldl_receive_cap)
  also have "\<dots> = take cap (rev (map record_of msgs))" using assms by simp
  also have "\<dots> = rev (drop (length msgs - cap) (map record_of msgs))"
    by (simp add: take_rev)
  finally show ?thesis by (simp add: drop_map)
qed

lemma older_absent:
  assumes "distinct (map record_of msgs)"
    and "m \<in> set (take k msgs)"
  shows "record_of m \<notin> set (rev (map record_of (drop k msgs)))"
proof -
  have "distinct (map record_of (take k msgs) @ map record_of (drop k msgs))"
    using assms(1) by (simp flip: map_append)
  then have "set (map record_of (take k msgs)) \<inter> set (map record_of (drop k msgs)) = {}"
    by (simp only: distinct_append) 
  with assms(2) show ?thesis by auto
qed

lemma id_of_record_inj: "id_upd (record_of m) = id_upd (record_of n) \<longleftrightarrow> key_of m = key_of n"
  by (cases m; cases n) (simp add: key_of_def id_upd_inj)

lemma distinct_ids:
  assumes "distinct (map key_of msgs)"
  shows "distinct (map id_upd (foldl receive [] msgs))"
proof (cases "msgs = []")
  case True
  then show ?thesis by simp
next
  case False
  have "inj_on (\<lambda>m. id_upd (record_of m)) (set msgs)"
  proof (rule inj_onI)
    fix m n assume "m \<in> set msgs" "n \<in> set msgs" "id_upd (record_of m) = id_upd (record_of n)"
    then have "key_of m = key_of n" by (simp add: id_of_record_inj)
    moreover from assms have "inj_on key_of (set msgs)" and "distinct msgs"
      by (simp_all add: distinct_map)
    ultimately show "m = n" using \<open>m \<in> set msgs\<close> \<open>n \<in> set msgs\<close> by (auto dest: inj_onD)
  qed
  moreover from assms have "distinct msgs" by (simp add: distinct_map)
  ultimately have "distinct (map (\<lambda>m. id_upd (record_of m)) msgs)" by (simp add: distinct_map)
  then have "distinct (map id_upd (rev (map record_of msgs)))"
    by (simp add: rev_map[symmetric] comp_def)
  then have "distinct (take 50 (map id_upd (rev (map record_of msgs))))" by (rule distinct_take)
  moreover have "foldl receive [] msgs = take 50 (rev (map record_of msgs) @ [])"
    using False by (simp only: receive_cap_50) (rule foldl_receive_cap, simp_all)
  ultimately show ?thesis by (simp add: take_map)
qed

section \<open>Registrations stay well paired\<close>

lemma listeners_attach: "listeners (attach s) = listeners s @ RealTimeUpdates_listeners"
  by (simp add: attach_def socket_on_def RealTimeUpdates_listeners_def)

lemma paired_attach: "paired False s \<Longrightarrow> paired True (attach s)"
  by (auto simp: paired_def listeners_attach)

lemma paired_detach: "paired b s \<Longrightarrow> paired False (detach s)"
  by (cases b)
     (auto simp: paired_def detach_def socket_off_def Dashboard_listeners_def
        RealTimeUpdates_listeners_def)

lemma paired_track_connected [simp]: "paired b (track_connected ev s) = paired b s"
  by (simp add: paired_def track_connected_def)

lemma paired_socket_close [simp]: "paired b (socket_close s) = paired b s"
  by (simp add: paired_def socket_close_def)

lemma paired_new: "paired False (socket_on ''disconnect'' Dashboard_disconnect
                        (socket_on ''connect'' Dashboard_connect (io tok)))"
  by (simp add: paired_def socket_on_def io_def Dashboard_listeners_def)

lemma with_socket_nth:
  "k < length (transports w) \<Longrightarrow>
     transports (with_socket h f w) ! k = (if k = h then f (transports w ! k) else transports w ! k)"
  by (simp add: with_socket_def nth_list_update)

lemma run_listener_frame [simp]:
  "transports (run_listener e d l w) = transports w"
  "RealTimeUpdates_hook (run_listener e d l w) = RealTimeUpdates_hook w"
  "Dashboard_hook (run_listener e d l w) = Dashboard_hook w"
  "socket (run_listener e d l w) = socket w"
  by (cases l; simp)+

lemma run_listeners_frame [simp]:
  "transports (run_listeners rd d k ls w) = transports w"
  "RealTimeUpdates_hook (run_listeners rd d k ls w) = RealTimeUpdates_hook w"
  "Dashboard_hook (run_listeners rd d k ls w) = Dashboard_hook w"
  "socket (run_listeners rd d k ls w) = socket w"
  by (induction ls arbitrary: k w; simp)+

lemma emit_frame [simp]:
  "RealTimeUpdates_hook (emit h ev rd d w) = RealTimeUpdates_hook w"
  "Dashboard_hook (emit h ev rd d w) = Dashboard_hook w"
  "socket (emit h ev rd d w) = socket w"
  "length (transports (emit h ev rd d w)) = length (transports w)"
  by (simp_all add: emit_def)

lemma emit_transports:
  "transports (emit h ev rd d w) = transports (with_socket h (track_connected ev) w)"
  by (simp add: emit_def with_socket_def list_update_beyond)

lemma paired_world_emit: "paired_world w \<Longrightarrow> paired_world (emit h ev rd d w)"
  by (simp add: paired_world_def emit_transports with_socket_nth)

lemma paired_world_clearUpdates: "paired_world w \<Longrightarrow> paired_world (clearUpdates w)"
  by (simp add: paired_world_def clearUpdates_def)

lemma cleanup_released:
  "paired_world w \<Longrightarrow> RealTimeUpdates_hook w = Some dep \<Longrightarrow> released (RealTimeUpdates_cleanup dep w)"
proof (cases dep)
  case None
  assume "paired_world w" "RealTimeUpdates_hook w = Some dep"
  with None show ?thesis by (simp add: paired_world_def released_def RealTimeUpdates_cleanup_def)
next
  case (Some h)
  assume pw: "paired_world w" and hk: "RealTimeUpdates_hook w = Some dep"
  show ?thesis unfolding released_def
  proof (intro conjI allI impI)
    fix k assume k: "k < length (transports (RealTimeUpdates_cleanup dep w))"
    then have k': "k < length (transports w)" by simp
    show "paired False (transports (RealTimeUpdates_cleanup dep w) ! k)"
    proof (cases "k = h")
      case True
      from pw k' have "paired (RealTimeUpdates_hook w = Some (Some k)) (transports w ! k)"
        by (simp add: paired_world_def)
      then have "paired False (detach (transports w ! k))" by (rule paired_detach)
      with True Some k' show ?thesis by (simp add: RealTimeUpdates_cleanup_def with_socket_nth)
    next
      case False
      from pw k' have "paired (RealTimeUpdates_hook w = Some (Some k)) (transports w ! k)"
        by (simp add: paired_world_def)
      with False Some hk k' show ?thesis by (simp add: RealTimeUpdates_cleanup_def with_socket_nth)
    qed
  next
    fix k assume "socket (RealTimeUpdates_cleanup dep w) = Some k"
    with pw show "k < length (transports (RealTimeUpdates_cleanup dep w))"
      by (simp add: paired_world_def)
  qed
qed

lemma unmounted_released: "paired_world w \<Longrightarrow> RealTimeUpdates_hook w = None \<Longrightarrow> released w"
  by (simp add: paired_world_def released_def)

lemma released_frame:
  "transports w' = transports w \<Longrightarrow> socket w' = socket w \<Longrightarrow> released w' = released w"
  by (simp add: released_def)

lemma effect_paired:
  assumes "released w" and "sock = socket w"
  shows "paired_world (RealTimeUpdates_effect sock w)"
proof (cases sock)
  case None
  with assms show ?thesis by (simp add: RealTimeUpdates_effect_def released_def paired_world_def)
next
  case (Some h)
  with assms have h: "h < length (transports w)" by (simp add: released_def)
  show ?thesis unfolding paired_world_def
  proof (intro conjI allI impI)
    fix k assume "k < length (transports (RealTimeUpdates_effect sock w))"
    then have k: "k < length (transports w)" by (simp add: RealTimeUpdates_effect_def Some)
    with assms(1) have p: "paired False (transports w ! k)" by (simp add: released_def)
    show "paired (RealTimeUpdates_hook (RealTimeUpdates_effect sock w) = Some (Some k))
            (transports (RealTimeUpdates_effect sock w) ! k)"
    proof (cases "k = h")
      case True
      with k paired_attach[OF p] show ?thesis
        by (simp add: RealTimeUpdates_effect_def Some with_socket_def)
    next
      case False
      with k p show ?thesis
        by (simp add: RealTimeUpdates_effect_def Some with_socket_def)
    qed
  next
    fix k assume "RealTimeUpdates_hook (RealTimeUpdates_effect sock w) = Some (Some k)"
    with h show "k < length (transports (RealTimeUpdates_effect sock w))"
      by (simp add: RealTimeUpdates_effect_def Some)
  next
    fix k assume "socket (RealTimeUpdates_effect sock w) = Some k"
    with assms(1) show "k < length (transports (RealTimeUpdates_effect sock w))"
      by (simp add: RealTimeUpdates_effect_def Some released_def with_socket_def)
  qed
qed

lemma released_paired: "released w \<Longrightarrow> paired_world (w\<lparr> RealTimeUpdates_hook := None \<rparr>)"
  by (simp add: released_def paired_world_def)

lemma paired_world_RealTimeUpdates_unmount:
  "paired_world w \<Longrightarrow> paired_world (RealTimeUpdates_unmount w)"
  by (auto simp: RealTimeUpdates_unmount_def split: option.splits
      intro: released_paired cleanup_released)

lemma paired_world_RealTimeUpdates_render:
  assumes "paired_world w"
  shows "paired_world (RealTimeUpdates_render w)"
proof (cases "Dashboard_hook w = None")
  case True
  with assms show ?thesis by (simp add: RealTimeUpdates_render_def)
next
  case mounted: False
  show ?thesis
  proof (cases "RealTimeUpdates_hook w")
    case None
    with assms have "released w" by (simp add: unmounted_released)
    then have "released (w\<lparr> updates := [], isConnected := False \<rparr>)"
      by (simp add: released_def)
    then have "paired_world (RealTimeUpdates_effect (socket w) (w\<lparr> updates := [], isConnected := False \<rparr>))"
      by (rule effect_paired) simp
    with mounted None show ?thesis by (auto simp: RealTimeUpdates_render_def)
  next
    case (Some dep)
    show ?thesis
    proof (cases "dep = socket w")
      case True
      with mounted Some assms show ?thesis by (auto simp: RealTimeUpdates_render_def)
    next
      case False
      from assms Some have "released (RealTimeUpdates_cleanup dep w)" by (rule cleanup_released)
      then have "paired_world (RealTimeUpdates_effect (socket w) (RealTimeUpdates_cleanup dep w))"
        by (rule effect_paired) simp
      with mounted Some False show ?thesis by (auto simp: RealTimeUpdates_render_def)
    qed
  qed
qed

lemma paired_world_Dashboard_cleanup:
  "paired_world w \<Longrightarrow> paired_world (Dashboard_cleanup h w)"
proof -
  assume p: "paired_world w"
  have t: "transports (Dashboard_cleanup h w) = transports (with_socket h socket_close w)"
    by (simp add: Dashboard_cleanup_def with_socket_def)
  have "paired_world (with_socket h socket_close w)"
    using p by (simp add: paired_world_def with_socket_nth)
  then show ?thesis
    by (simp add: paired_world_def t) (simp add: Dashboard_cleanup_def)
qed

lemma paired_world_Dashboard_effect:
  assumes "paired_world w"
  shows "paired_world (Dashboard_effect tok w)"
  unfolding paired_world_def
proof (intro conjI allI impI)
  fix k assume "k < length (transports (Dashboard_effect tok w))"
  then have "k < length (transports w) \<or> k = length (transports w)"
    by (auto simp: Dashboard_effect_def Let_def)
  then show "paired (RealTimeUpdates_hook (Dashboard_effect tok w) = Some (Some k))
               (transports (Dashboard_effect tok w) ! k)"
  proof
    assume "k < length (transports w)"
    with assms show ?thesis
      by (simp add: Dashboard_effect_def Let_def paired_world_def nth_append)
  next
    assume k: "k = length (transports w)"
    with assms have "RealTimeUpdates_hook w \<noteq> Some (Some k)" by (auto simp: paired_world_def)
    with k show ?thesis
      by (simp add: Dashboard_effect_def Let_def nth_append paired_new)
  qed
next
  fix k assume "RealTimeUpdates_hook (Dashboard_effect tok w) = Some (Some k)"
  with assms show "k < length (transports (Dashboard_effect tok w))"
    by (auto simp: Dashboard_effect_def Let_def paired_world_def less_Suc_eq)
next
  fix k assume "socket (Dashboard_effect tok w) = Some k"
  then show "k < length (transports (Dashboard_effect tok w))"
    by (auto simp: Dashboard_effect_def Let_def)
qed

lemma paired_world_socket_reset:
  "paired_world w \<Longrightarrow> paired_world (w\<lparr> socket := None, isConnected_Dashboard := False \<rparr>)"
  by (simp add: paired_world_def)

lemma paired_world_Dashboard_render:
  "paired_world w \<Longrightarrow> paired_world (Dashboard_render tok w)"
  by (auto simp: Dashboard_render_def split: option.splits prod.splits
      intro!: paired_world_Dashboard_effect paired_world_Dashboard_cleanup paired_world_socket_reset)

lemma paired_world_hook_reset:
  "paired_world w \<Longrightarrow> paired_world (w\<lparr> Dashboard_hook := None \<rparr>)"
  by (simp add: paired_world_def)

lemma paired_world_Dashboard_unmount:
  "paired_world w \<Longrightarrow> paired_world (Dashboard_unmount w)"
  by (auto simp: Dashboard_unmount_def split: option.splits prod.splits
      intro!: paired_world_hook_reset paired_world_Dashboard_cleanup paired_world_RealTimeUpdates_unmount)

lemma paired_world_step: "paired_world w \<Longrightarrow> paired_world (step w a)"
  by (cases a)
     (simp_all add: paired_world_Dashboard_render paired_world_Dashboard_unmount
        paired_world_RealTimeUpdates_render paired_world_RealTimeUpdates_unmount
        paired_world_emit paired_world_clearUpdates)

lemma paired_world_foldl: "paired_world w \<Longrightarrow> paired_world (foldl step w acts)"
  by (induction acts arbitrary: w) (simp_all add: paired_world_step)

lemma paired_world_run: "paired_world (run acts)"
  unfolding run_def by (rule paired_world_foldl) (simp add: paired_world_def initial_def)

lemma listeners_for_attached:
  "paired True s \<Longrightarrow> listeners_for (type_name ty) s = [RealTimeUpdates_update ty]"
  by (cases ty)
     (auto simp: paired_def listeners_for_def Dashboard_listeners_def RealTimeUpdates_listeners_def)

lemma listeners_for_released:
  "paired False s \<Longrightarrow> set (listeners_for ev s) \<subseteq> {Dashboard_connect, Dashboard_disconnect}"
  by (auto simp: paired_def listeners_for_def Dashboard_listeners_def)

lemma listeners_for_connect:
  "paired b s \<Longrightarrow> set (listeners_for ''connect'' s) \<subseteq> {Dashboard_connect, RealTimeUpdates_connect}"
  by (cases b)
     (auto simp: paired_def listeners_for_def Dashboard_listeners_def RealTimeUpdates_listeners_def)

lemma listeners_for_disconnect:
  "paired b s \<Longrightarrow> set (listeners_for ''disconnect'' s) \<subseteq> {Dashboard_disconnect, RealTimeUpdates_disconnect}"
  by (cases b)
     (auto simp: paired_def listeners_for_def Dashboard_listeners_def RealTimeUpdates_listeners_def)

lemma Dashboard_connect_event:
  "paired b s \<Longrightarrow> Dashboard_connect \<in> set (listeners_for ev s) \<Longrightarrow> ev = ''connect''"
  by (cases b)
     (auto simp: paired_def listeners_for_def Dashboard_listeners_def RealTimeUpdates_listeners_def
           split: if_splits)

lemma Dashboard_disconnect_event:
  "paired b s \<Longrightarrow> Dashboard_disconnect \<in> set (listeners_for ev s) \<Longrightarrow> ev = ''disconnect''"
  by (cases b)
     (auto simp: paired_def listeners_for_def Dashboard_listeners_def RealTimeUpdates_listeners_def
           split: if_splits)

lemma run_listeners_quiet:
  "\<forall>l \<in> set ls. quiet l \<Longrightarrow> updates (run_listeners rd d k ls w) = updates w"
proof (induction ls arbitrary: k w)
  case Nil
  then show ?case by simp
next
  case (Cons l ls)
  then have "updates (run_listener (rd k) d l w) = updates w" by (cases l) simp_all
  with Cons show ?case by simp
qed

lemma emit_on_attached:
  assumes "paired_world w" and "RealTimeUpdates_hook w = Some (Some h)"
  shows "updates (emit h (type_name ty) rd d w) = newUpdate (rd 0) ty d # take 49 (updates w)"
proof -
  from assms have h: "h < length (transports w)" and "paired True (transports w ! h)"
    by (auto simp: paired_world_def)
  then have "listeners_for (type_name ty) (transports w ! h) = [RealTimeUpdates_update ty]"
    by (simp add: listeners_for_attached)
  with h show ?thesis by (simp add: emit_def addUpdate_def)
qed

lemma emit_released:
  assumes "released w"
  shows "updates (emit h ev rd d w) = updates w"
proof (cases "h < length (transports w)")
  case True
  with assms have "paired False (transports w ! h)" by (simp add: released_def)
  then have "\<forall>l \<in> set (listeners_for ev (transports w ! h)). quiet l"
    using listeners_for_released[of "transports w ! h" ev] by auto
  with True show ?thesis by (simp add: emit_def run_listeners_quiet)
next
  case False
  then show ?thesis by (simp add: emit_def)
qed

lemma released_emit: "released w \<Longrightarrow> released (emit h ev rd d w)"
  by (simp add: released_def emit_transports with_socket_nth)

lemma emits_released:
  "released w \<Longrightarrow> \<forall>a \<in> set acts. is_Emit a \<Longrightarrow> updates (foldl step w acts) = updates w"
proof (induction acts arbitrary: w)
  case Nil
  then show ?case by simp
next
  case (Cons a acts)
  from Cons.prems(2) obtain h ev rd d where a: "a = Emit h ev rd d" by (cases a) auto
  from Cons.prems(1) have "released (step w a)" by (simp add: a released_emit)
  with Cons have "updates (foldl step (step w a) acts) = updates (step w a)" by simp
  with Cons.prems(1) show ?case by (simp add: a emit_released)
qed

lemma unmount_released: "paired_world w \<Longrightarrow> released (RealTimeUpdates_unmount w)"
proof (cases "RealTimeUpdates_hook w")
  case None
  assume "paired_world w"
  with None show ?thesis by (simp add: RealTimeUpdates_unmount_def unmounted_released)
next
  case (Some dep)
  assume "paired_world w"
  with Some have "released (RealTimeUpdates_cleanup dep w)" by (simp add: cleanup_released)
  then have "released ((RealTimeUpdates_cleanup dep w)\<lparr> RealTimeUpdates_hook := None \<rparr>)"
    by (simp add: released_def)
  with Some show ?thesis by (simp add: RealTimeUpdates_unmount_def)
qed

lemma listeners_for_detach: "listeners_for (type_name ty) (detach s) = []"
  by (cases ty) (auto simp: listeners_for_def detach_def socket_off_def filter_empty_conv)

lemma emit_connect_updates:
  assumes "paired_world w" and "ev = ''connect'' \<or> ev = ''disconnect''"
  shows "updates (emit h ev rd d w) = updates w"
proof (cases "h < length (transports w)")
  case True
  with assms(1) obtain b where p: "paired b (transports w ! h)" by (auto simp: paired_world_def)
  from assms(2) have "\<forall>l \<in> set (listeners_for ev (transports w ! h)). quiet l"
    using listeners_for_connect[OF p] listeners_for_disconnect[OF p] by auto
  with True show ?thesis by (simp add: emit_def run_listeners_quiet)
next
  case False
  then show ?thesis by (simp add: emit_def)
qed

lemma alternating_transitions: "alternating b (transitions b xs)"
  by (induction xs arbitrary: b) auto

lemma foldl_step_run: "foldl step (run acts) evs = run (acts @ evs)"
  by (simp add: run_def)

lemma emit_elsewhere:
  assumes "paired_world w" and "RealTimeUpdates_hook w \<noteq> Some (Some h)"
  shows "updates (emit h ev rd d w) = updates w"
proof (cases "h < length (transports w)")
  case True
  with assms(1) have "paired (RealTimeUpdates_hook w = Some (Some h)) (transports w ! h)"
    by (simp add: paired_world_def)
  with assms(2) have "paired False (transports w ! h)" by simp
  then have "\<forall>l \<in> set (listeners_for ev (transports w ! h)). quiet l"
    using listeners_for_released[of "transports w ! h" ev] by auto
  with True show ?thesis by (simp add: emit_def run_listeners_quiet)
next
  case False
  then show ?thesis by (simp add: emit_def)
qed

lemma emits_elsewhere:
  "paired_world w \<Longrightarrow> RealTimeUpdates_hook w \<noteq> Some (Some h) \<Longrightarrow> \<forall>a \<in> set evs. emits_on h a \<Longrightarrow>
     updates (foldl step w evs) = updates w"
proof (induction evs arbitrary: w)
  case Nil
  then show ?case by simp
next
  case (Cons a evs)
  from Cons.prems(3) obtain ev rd d where a: "a = Emit h ev rd d" by (cases a) auto
  have "paired_world (step w a)" using Cons.prems(1) by (rule paired_world_step)
  moreover have "RealTimeUpdates_hook (step w a) \<noteq> Some (Some h)" using Cons.prems(2) by (simp add: a)
  ultimately have "updates (foldl step (step w a) evs) = updates (step w a)"
    using Cons.prems(3) by (intro Cons.IH) simp_all
  with Cons.prems(1,2) show ?case by (simp add: a emit_elsewhere)
qed

lemma RealTimeUpdates_connect_event:
  "paired b s \<Longrightarrow> RealTimeUpdates_connect \<in> set (listeners_for ev s) \<Longrightarrow> ev = ''connect''"
  by (cases b)
     (auto simp: paired_def listeners_for_def Dashboard_listeners_def RealTimeUpdates_listeners_def
           split: if_splits)

lemma RealTimeUpdates_disconnect_event:
  "paired b s \<Longrightarrow> RealTimeUpdates_disconnect \<in> set (listeners_for ev s) \<Longrightarrow> ev = ''disconnect''"
  by (cases b)
     (auto simp: paired_def listeners_for_def Dashboard_listeners_def RealTimeUpdates_listeners_def
           split: if_splits)

lemma deliver_attached:
  "paired_world w \<Longrightarrow> RealTimeUpdates_hook w = Some (Some h) \<Longrightarrow>
     updates (foldl step w (map (deliver h) msgs)) = foldl receive (updates w) msgs"
proof (induction msgs arbitrary: w)
  case Nil
  then show ?case by simp
next
  case (Cons m msgs)
  obtain e ty d where m: "m = (e, ty, d)" by (cases m)
  have p: "paired_world (step w (deliver h m))" using Cons.prems(1) by (rule paired_world_step)
  have k: "RealTimeUpdates_hook (step w (deliver h m)) = Some (Some h)"
    using Cons.prems(2) by (simp add: m)
  have u: "updates (step w (deliver h m)) = receive (updates w) m"
    using emit_on_attached[OF Cons.prems, of ty "always e" d]
    by (simp add: m always_def addUpdate_def)
  from Cons.IH[OF p k] u show ?case by simp
qed

section \<open>What connection events do to the flags\<close>

lemma run_listeners_Dashboard_quiet:
  "Dashboard_connect \<notin> set ls \<Longrightarrow> Dashboard_disconnect \<notin> set ls \<Longrightarrow>
     isConnected_Dashboard (run_listeners rd d k ls w) = isConnected_Dashboard w"
proof (induction ls arbitrary: k w)
  case Nil
  then show ?case by simp
next
  case (Cons l ls)
  then have "isConnected_Dashboard (run_listener (rd k) d l w) = isConnected_Dashboard w"
    by (cases l) auto
  with Cons show ?case by simp
qed

lemma run_listeners_feed_quiet:
  "RealTimeUpdates_connect \<notin> set ls \<Longrightarrow> RealTimeUpdates_disconnect \<notin> set ls \<Longrightarrow>
     isConnected (run_listeners rd d k ls w) = isConnected w"
proof (induction ls arbitrary: k w)
  case Nil
  then show ?case by simp
next
  case (Cons l ls)
  then have "isConnected (run_listener (rd k) d l w) = isConnected w"
    by (cases l) auto
  with Cons show ?case by simp
qed

lemma paired_shapes:
  assumes "paired b s"
  obtains "listeners s = Dashboard_listeners @ RealTimeUpdates_listeners" "b"
    | "listeners s = RealTimeUpdates_listeners" "b"
    | "listeners s = Dashboard_listeners" "\<not> b"
    | "listeners s = []" "\<not> b"
  using assms by (cases b) (auto simp: paired_def)

lemma Dashboard_in_shapes:
  "set Dashboard_listeners \<subseteq> set (Dashboard_listeners @ RealTimeUpdates_listeners)"
  "\<not> set Dashboard_listeners \<subseteq> set RealTimeUpdates_listeners"
  "\<not> set Dashboard_listeners \<subseteq> set ([] :: (string \<times> listener) list)"
  by (simp_all add: Dashboard_listeners_def RealTimeUpdates_listeners_def)

lemma listeners_for_connect_exact:
  assumes "paired b s"
  shows "listeners_for ''connect'' s =
     (if set Dashboard_listeners \<subseteq> set (listeners s) then [Dashboard_connect] else [])
     @ (if b then [RealTimeUpdates_connect] else [])"
  using assms
proof (cases rule: paired_shapes)
  case 1
  then show ?thesis
    by (simp add: listeners_for_def Dashboard_listeners_def RealTimeUpdates_listeners_def)
next
  case 2
  then show ?thesis
    by (simp add: listeners_for_def Dashboard_listeners_def RealTimeUpdates_listeners_def)
next
  case 3
  then show ?thesis
    by (simp add: listeners_for_def Dashboard_listeners_def RealTimeUpdates_listeners_def)
next
  case 4
  then show ?thesis
    by (simp add: listeners_for_def Dashboard_listeners_def RealTimeUpdates_listeners_def)
qed

lemma listeners_for_disconnect_exact:
  assumes "paired b s"
  shows "listeners_for ''disconnect'' s =
     (if set Dashboard_listeners \<subseteq> set (listeners s) then [Dashboard_disconnect] else [])
     @ (if b then [RealTimeUpdates_disconnect] else [])"
  using assms
proof (cases rule: paired_shapes)
  case 1
  then show ?thesis
    by (simp add: listeners_for_def Dashboard_listeners_def RealTimeUpdates_listeners_def)
next
  case 2
  then show ?thesis
    by (simp add: listeners_for_def Dashboard_listeners_def RealTimeUpdates_listeners_def)
next
  case 3
  then show ?thesis
    by (simp add: listeners_for_def Dashboard_listeners_def RealTimeUpdates_listeners_def)
next
  case 4
  then show ?thesis
    by (simp add: listeners_for_def Dashboard_listeners_def RealTimeUpdates_listeners_def)
qed

lemma emit_Dashboard_flag:
  assumes "paired_world w"
  shows "isConnected_Dashboard (emit h ev rd d w) =
      (if Dashboard_listens w h \<and> ev = ''connect'' then True
       else if Dashboard_listens w h \<and> ev = ''disconnect'' then False
       else isConnected_Dashboard w)"
proof (cases "h < length (transports w)")
  case False
  then show ?thesis by (simp add: emit_def Dashboard_listens_def)
next
  case True
  with assms obtain b where p: "paired b (transports w ! h)" by (auto simp: paired_world_def)
  let ?s = "transports w ! h"
  let ?w = "with_socket h (track_connected ev) w"
  have e: "emit h x rd d w = run_listeners rd d 0 (listeners_for x ?s) (with_socket h (track_connected x) w)" for x
    using True by (simp add: emit_def)
  consider "ev = ''connect''" | "ev = ''disconnect''" | "ev \<noteq> ''connect''" "ev \<noteq> ''disconnect''"
    by blast
  then show ?thesis
  proof cases
    case 1
    show ?thesis
      using True by (cases b) (simp_all add: e 1 listeners_for_connect_exact[OF p] Dashboard_listens_def)
  next
    case 2
    show ?thesis
      using True by (cases b) (simp_all add: e 2 listeners_for_disconnect_exact[OF p] Dashboard_listens_def)
  next
    case 3
    have "Dashboard_connect \<notin> set (listeners_for ev ?s)"
      using Dashboard_connect_event[OF p, of ev] 3 by blast
    moreover have "Dashboard_disconnect \<notin> set (listeners_for ev ?s)"
      using Dashboard_disconnect_event[OF p, of ev] 3 by blast
    ultimately have "isConnected_Dashboard (run_listeners rd d 0 (listeners_for ev ?s) ?w) = isConnected_Dashboard ?w"
      by (rule run_listeners_Dashboard_quiet)
    with 3 show ?thesis by (simp add: e)
  qed
qed

lemma emit_feed_flag:
  assumes "paired_world w"
  shows "isConnected (emit h ev rd d w) =
      (if RealTimeUpdates_hook w = Some (Some h) \<and> ev = ''connect'' then True
       else if RealTimeUpdates_hook w = Some (Some h) \<and> ev = ''disconnect'' then False
       else isConnected w)"
proof (cases "h < length (transports w)")
  case False
  with assms have "RealTimeUpdates_hook w \<noteq> Some (Some h)" by (auto simp: paired_world_def)
  with False show ?thesis by (simp add: emit_def)
next
  case True
  with assms have p: "paired (RealTimeUpdates_hook w = Some (Some h)) (transports w ! h)"
    by (simp add: paired_world_def)
  let ?s = "transports w ! h"
  let ?w = "with_socket h (track_connected ev) w"
  have e: "emit h x rd d w = run_listeners rd d 0 (listeners_for x ?s) (with_socket h (track_connected x) w)" for x
    using True by (simp add: emit_def)
  consider "ev = ''connect''" | "ev = ''disconnect''" | "ev \<noteq> ''connect''" "ev \<noteq> ''disconnect''"
    by blast
  then show ?thesis
  proof cases
    case 1
    show ?thesis
      by (cases "set Dashboard_listeners \<subseteq> set (listeners ?s)")
         (simp_all add: e 1 listeners_for_connect_exact[OF p])
  next
    case 2
    show ?thesis
      by (cases "set Dashboard_listeners \<subseteq> set (listeners ?s)")
         (simp_all add: e 2 listeners_for_disconnect_exact[OF p])
  next
    case 3
    have "RealTimeUpdates_connect \<notin> set (listeners_for ev ?s)"
      using RealTimeUpdates_connect_event[OF p, of ev] 3 by blast
    moreover have "RealTimeUpdates_disconnect \<notin> set (listeners_for ev ?s)"
      using RealTimeUpdates_disconnect_event[OF p, of ev] 3 by blast
    ultimately have "isConnected (run_listeners rd d 0 (listeners_for ev ?s) ?w) = isConnected ?w"
      by (rule run_listeners_feed_quiet)
    with 3 show ?thesis by (simp add: e)
  qed
qed

lemma nth_update_listeners:
  "k < length xs \<Longrightarrow> (\<And>s. listeners (f s) = listeners s) \<Longrightarrow>
     listeners (xs[h := f (xs ! h)] ! k) = listeners (xs ! k)"
  by (cases "k = h") simp_all

lemma listeners_unchanged [simp]:
  "listeners (socket_close s) = listeners s"
  "listeners (track_connected ev s) = listeners s"
  by (simp_all add: socket_close_def track_connected_def)

lemma close_transport_Dashboard_flag:
  assumes "paired_world w"
  shows "isConnected_Dashboard (close_transport h w) =
      (if Dashboard_listens w h \<and> connected (transports w ! h) then False
       else isConnected_Dashboard w)"
proof (cases "h < length (transports w)")
  case False
  then show ?thesis by (simp add: close_transport_def Dashboard_listens_def with_socket_def)
next
  case True
  with assms obtain b where p: "paired b (transports w ! h)" by (auto simp: paired_world_def)
  show ?thesis
    using True
    by (cases b)
       (simp_all add: close_transport_def listeners_for_disconnect_exact[OF p] Dashboard_listens_def
          with_socket_def)
qed

lemma close_transport_feed_flag:
  assumes "paired_world w"
  shows "isConnected (close_transport h w) =
      (if RealTimeUpdates_hook w = Some (Some h) \<and> connected (transports w ! h) then False
       else isConnected w)"
proof (cases "h < length (transports w)")
  case False
  with assms have "RealTimeUpdates_hook w \<noteq> Some (Some h)" by (auto simp: paired_world_def)
  with False show ?thesis by (simp add: close_transport_def with_socket_def)
next
  case True
  with assms have p: "paired (RealTimeUpdates_hook w = Some (Some h)) (transports w ! h)"
    by (simp add: paired_world_def)
  show ?thesis
    using True
    by (cases "set Dashboard_listeners \<subseteq> set (listeners (transports w ! h))")
       (simp_all add: close_transport_def listeners_for_disconnect_exact[OF p] with_socket_def)
qed

lemma only_Dashboard_step:
  assumes "only_Dashboard w" and "\<not> feed_action a"
  shows "only_Dashboard (step w a)"
proof (cases a)
  case (Render_Dashboard tok)
  have c: "only_Dashboard (Dashboard_cleanup h w)" for h
    using assms(1)
    by (simp add: only_Dashboard_def Dashboard_cleanup_def nth_update_listeners)
  have r: "only_Dashboard (w\<lparr> socket := None, isConnected_Dashboard := False \<rparr>)"
    using assms(1) by (simp add: only_Dashboard_def)
  have e: "only_Dashboard v \<Longrightarrow> only_Dashboard (Dashboard_effect tok v)" for v :: "'a world"
    by (auto simp: only_Dashboard_def Dashboard_effect_def Let_def nth_append less_Suc_eq
        socket_on_def io_def Dashboard_listeners_def)
  show ?thesis
    using assms(1) c r e
    by (auto simp: Render_Dashboard Dashboard_render_def split: option.splits prod.splits)
next
  case Unmount_Dashboard
  have u: "RealTimeUpdates_unmount w = w"
    using assms(1) by (simp add: only_Dashboard_def RealTimeUpdates_unmount_def)
  have c: "only_Dashboard ((Dashboard_cleanup h w)\<lparr> Dashboard_hook := None \<rparr>)" for h
    using assms(1)
    by (simp add: only_Dashboard_def Dashboard_cleanup_def nth_update_listeners)
  show ?thesis
    using assms(1) c
    by (auto simp: Unmount_Dashboard Dashboard_unmount_def u split: option.splits prod.splits)
next
  case Render_RealTimeUpdates
  with assms(2) show ?thesis by simp
next
  case Unmount_RealTimeUpdates
  with assms(2) show ?thesis by simp
next
  case (Emit h ev rd d)
  have "transports (emit h ev rd d w) = transports (with_socket h (track_connected ev) w)"
    by (rule emit_transports)
  then show ?thesis
    using assms(1)
    by (simp add: Emit only_Dashboard_def with_socket_def nth_update_listeners)
next
  case Click_ClearAll
  with assms(1) show ?thesis by (simp add: only_Dashboard_def clearUpdates_def)
qed

lemma only_Dashboard_foldl:
  "only_Dashboard w \<Longrightarrow> \<forall>a \<in> set acts. \<not> feed_action a \<Longrightarrow> only_Dashboard (foldl step w acts)"
  by (induction acts arbitrary: w) (simp_all add: only_Dashboard_step)

lemma only_Dashboard_run:
  "\<forall>a \<in> set acts. \<not> feed_action a \<Longrightarrow> only_Dashboard (run acts)"
  unfolding run_def by (rule only_Dashboard_foldl) (simp_all add: only_Dashboard_def initial_def)

lemma only_Dashboard_listens:
  "only_Dashboard w \<Longrightarrow> h < length (transports w) \<Longrightarrow> Dashboard_listens w h"
  by (simp add: only_Dashboard_def Dashboard_listens_def)

lemma emit_connected:
  "h < length (transports w) \<Longrightarrow>
     connected (transports (emit h ev rd d w) ! h) =
       (if ev = ''connect'' then True else if ev = ''disconnect'' then False
        else connected (transports w ! h))"
  by (simp add: emit_transports with_socket_def track_connected_def)

lemma mount_feed_flag:
  assumes "RealTimeUpdates_hook w = None" and "Dashboard_hook w \<noteq> None" and "socket w = Some h"
    and "h < length (transports w)"
  shows "isConnected (RealTimeUpdates_render w) = connected (transports w ! h)"
  using assms
  by (auto simp: RealTimeUpdates_render_def RealTimeUpdates_effect_def with_socket_def)

lemma Dashboard_effect_flags [simp]:
  "isConnected_Dashboard (Dashboard_effect tok w) = isConnected_Dashboard w"
  "isConnected (Dashboard_effect tok w) = isConnected w"
  by (simp_all add: Dashboard_effect_def Let_def)

section \<open>The page keeps one open transport per login\<close>

lemma static_with_socket:
  assumes "\<And>s. auth_token (f s) = auth_token s" and "\<And>s. closed (f s) = closed s"
  shows "static (with_socket h f w) = static w"
proof (cases "h < length (transports w)")
  case True
  have "static (with_socket h f w) = (static w)[h := (auth_token (f (transports w ! h)), closed (f (transports w ! h)))]"
    by (simp add: static_def with_socket_def map_update)
  also have "\<dots> = (static w)[h := static w ! h]" using True assms by (simp add: static_def)
  finally show ?thesis by simp
next
  case False
  then show ?thesis by (simp add: static_def with_socket_def list_update_beyond)
qed

lemma static_frame: "transports w' = transports w \<Longrightarrow> static w' = static w"
  by (simp add: static_def)

lemma static_attach: "static (with_socket h attach w) = static w"
  by (rule static_with_socket) (simp_all add: attach_def socket_on_def)

lemma static_detach: "static (with_socket h detach w) = static w"
  by (rule static_with_socket) (simp_all add: detach_def socket_off_def)

lemma static_track_connected: "static (with_socket h (track_connected ev) w) = static w"
  by (rule static_with_socket) (simp_all add: track_connected_def)

lemma static_emit: "static (emit h ev rd d w) = static w"
proof -
  have "static (emit h ev rd d w) = static (with_socket h (track_connected ev) w)"
    by (rule static_frame) (rule emit_transports)
  then show ?thesis by (simp only: static_track_connected)
qed

lemma static_RealTimeUpdates_cleanup: "static (RealTimeUpdates_cleanup dep w) = static w"
  by (cases dep) (simp_all add: RealTimeUpdates_cleanup_def static_detach)

lemma static_RealTimeUpdates_effect: "static (RealTimeUpdates_effect sock w) = static w"
proof (cases sock)
  case None
  then show ?thesis by (simp add: RealTimeUpdates_effect_def static_def)
next
  case (Some h)
  have "static (RealTimeUpdates_effect sock w)
      = static (with_socket h attach (w\<lparr> isConnected := (h < length (transports w) \<and> connected (transports w ! h)) \<rparr>))"
    by (rule static_frame) (simp add: RealTimeUpdates_effect_def Some)
  also have "\<dots> = static (w\<lparr> isConnected := (h < length (transports w) \<and> connected (transports w ! h)) \<rparr>)"
    by (rule static_attach)
  also have "\<dots> = static w" by (simp add: static_def)
  finally show ?thesis .
qed

lemma static_RealTimeUpdates_unmount: "static (RealTimeUpdates_unmount w) = static w"
proof (cases "RealTimeUpdates_hook w")
  case None
  then show ?thesis by (simp add: RealTimeUpdates_unmount_def)
next
  case (Some dep)
  then have "static (RealTimeUpdates_unmount w) = static (RealTimeUpdates_cleanup dep w)"
    by (intro static_frame) (simp add: RealTimeUpdates_unmount_def)
  then show ?thesis by (simp only: static_RealTimeUpdates_cleanup)
qed

lemma static_RealTimeUpdates_render: "static (RealTimeUpdates_render w) = static w"
proof -
  have reset: "static (w\<lparr> updates := [], isConnected := False \<rparr>) = static w"
    by (simp add: static_def)
  show ?thesis
    by (simp add: RealTimeUpdates_render_def static_RealTimeUpdates_effect
        static_RealTimeUpdates_cleanup reset split: option.splits)
qed

lemma Dashboard_hook_below [simp]:
  "Dashboard_hook (RealTimeUpdates_effect sock w) = Dashboard_hook w"
  "Dashboard_hook (RealTimeUpdates_unmount w) = Dashboard_hook w"
  "Dashboard_hook (RealTimeUpdates_render w) = Dashboard_hook w"
  by (simp_all add: RealTimeUpdates_effect_def RealTimeUpdates_unmount_def RealTimeUpdates_render_def
      split: option.splits)

lemma static_Dashboard_effect: "static (Dashboard_effect tok w) = static w @ [(tok, False)]"
  by (simp add: static_def Dashboard_effect_def Let_def socket_on_def io_def)

lemma static_Dashboard_cleanup:
  "h < length (static w) \<Longrightarrow>
     static (Dashboard_cleanup h w) = (static w)[h := (fst (static w ! h), True)]"
  by (simp add: static_def Dashboard_cleanup_def map_update socket_close_def)

lemma Dashboard_effect_hook: "Dashboard_hook (Dashboard_effect tok w) = Some (tok, length (static w))"
  by (simp add: Dashboard_effect_def Let_def static_def)

lemma mount_ok:
  assumes "\<forall>k < length (static w). snd (static w ! k)"
    and "w' = Dashboard_effect tok w"
  shows "Dashboard_hook w' = Some (tok, length (static w))"
    and "length (static w) < length (static w')"
    and "static w' ! length (static w) = (tok, False)"
    and "\<forall>k < length (static w'). k \<noteq> length (static w) \<longrightarrow> snd (static w' ! k)"
  using assms
  by (auto simp: Dashboard_effect_hook static_Dashboard_effect nth_append less_Suc_eq)

lemma closed_after_cleanup:
  assumes "h < length (static w)"
    and "\<forall>k < length (static w). k \<noteq> h \<longrightarrow> snd (static w ! k)"
  shows "\<forall>k < length (static (Dashboard_cleanup h w)). snd (static (Dashboard_cleanup h w) ! k)"
proof (intro allI impI)
  fix k assume "k < length (static (Dashboard_cleanup h w))"
  with assms(1) have k: "k < length (static w)" by (simp add: static_Dashboard_cleanup)
  show "snd (static (Dashboard_cleanup h w) ! k)"
  proof (cases "k = h")
    case True
    with assms(1) show ?thesis by (simp add: static_Dashboard_cleanup)
  next
    case False
    with assms k show ?thesis by (simp add: static_Dashboard_cleanup)
  qed
qed

lemma page_ok_render_in:
  assumes "page_ok p"
  shows "page_ok (Index_render (p\<lparr> token := Some t, isAuthenticated := True \<rparr>))"
proof (cases "Dashboard_hook (tree p)")
  case None
  with assms have c: "\<forall>k < length (static (tree p)). snd (static (tree p) ! k)"
    by (simp add: page_ok_def)
  have c': "\<forall>k < length (static (tree p\<lparr> socket := None, isConnected_Dashboard := False \<rparr>)).
      snd (static (tree p\<lparr> socket := None, isConnected_Dashboard := False \<rparr>) ! k)"
    using c by (simp add: static_def)
  have r: "tree (Index_render (p\<lparr> token := Some t, isAuthenticated := True \<rparr>))
      = Dashboard_effect (Some t) (tree p\<lparr> socket := None, isConnected_Dashboard := False \<rparr>)"
    using None by (simp add: Index_render_def Dashboard_render_def)
  show ?thesis
    using mount_ok[OF c' r]
    by (simp add: page_ok_def Index_render_def)
next
  case (Some th)
  obtain t' h where th: "th = (t', h)" by (cases th)
  from assms Some th have h: "h < length (static (tree p))"
    and o: "\<forall>k < length (static (tree p)). k \<noteq> h \<longrightarrow> snd (static (tree p) ! k)"
    and t': "t' = token p" and sh: "static (tree p) ! h = (token p, False)"
    by (simp_all add: page_ok_def)
  show ?thesis
  proof (cases "t' = Some t")
    case True
    then have "tree (Index_render (p\<lparr> token := Some t, isAuthenticated := True \<rparr>)) = tree p"
      using Some th by (simp add: Index_render_def Dashboard_render_def)
    with True Some th h o t' sh show ?thesis
      by (simp add: page_ok_def Index_render_def)
  next
    case False
    have c: "\<forall>k < length (static (Dashboard_cleanup h (tree p))). snd (static (Dashboard_cleanup h (tree p)) ! k)"
      using h o by (rule closed_after_cleanup)
    have r: "tree (Index_render (p\<lparr> token := Some t, isAuthenticated := True \<rparr>))
      = Dashboard_effect (Some t) (Dashboard_cleanup h (tree p))"
      using Some th False by (simp add: Index_render_def Dashboard_render_def)
    show ?thesis
      using mount_ok[OF c r]
      by (simp add: page_ok_def Index_render_def)
  qed
qed

lemma Dashboard_unmount_closes:
  assumes "Dashboard_hook w = Some (t, h)" and "h < length (static w)"
    and "\<forall>k < length (static w). k \<noteq> h \<longrightarrow> snd (static w ! k)"
  shows "Dashboard_hook (Dashboard_unmount w) = None"
    and "\<forall>k < length (static (Dashboard_unmount w)). snd (static (Dashboard_unmount w) ! k)"
proof -
  let ?u = "RealTimeUpdates_unmount w"
  have s: "static ?u = static w" by (rule static_RealTimeUpdates_unmount)
  have "static (Dashboard_unmount w) = static (Dashboard_cleanup h ?u)"
    using assms(1) by (intro static_frame) (simp add: Dashboard_unmount_def)
  moreover have "\<forall>k < length (static (Dashboard_cleanup h ?u)). snd (static (Dashboard_cleanup h ?u) ! k)"
    using assms(2,3) by (intro closed_after_cleanup) (simp_all only: s)
  ultimately show "\<forall>k < length (static (Dashboard_unmount w)). snd (static (Dashboard_unmount w) ! k)"
    by simp
  show "Dashboard_hook (Dashboard_unmount w) = None"
    using assms(1) by (simp add: Dashboard_unmount_def)
qed

lemma page_ok_handleLogout: "page_ok p \<Longrightarrow> page_ok (handleLogout p)"
proof (cases "Dashboard_hook (tree p)")
  case None
  assume "page_ok p"
  with None show ?thesis
    by (simp add: page_ok_def handleLogout_def Index_render_def Dashboard_unmount_def)
next
  case (Some th)
  assume ok: "page_ok p"
  obtain t' h where th: "th = (t', h)" by (cases th)
  from ok Some th have h: "h < length (static (tree p))"
    and o: "\<forall>k < length (static (tree p)). k \<noteq> h \<longrightarrow> snd (static (tree p) ! k)"
    by (simp_all add: page_ok_def)
  from Some th have hk: "Dashboard_hook (tree p) = Some (t', h)" by simp
  show ?thesis
    using Dashboard_unmount_closes[OF hk h o]
    by (simp add: page_ok_def handleLogout_def Index_render_def)
qed

lemma page_ok_handleLogin: "page_ok p \<Longrightarrow> page_ok (handleLogin t p)"
  unfolding handleLogin_def by (rule page_ok_render_in)

lemma page_ok_Index_effect: "page_ok p \<Longrightarrow> page_ok (Index_effect t p)"
  by (cases t) (simp_all add: Index_effect_def page_ok_render_in)

lemma page_ok_frame:
  "page_ok p \<Longrightarrow> static w' = static (tree p) \<Longrightarrow> Dashboard_hook w' = Dashboard_hook (tree p) \<Longrightarrow>
     page_ok (p\<lparr> tree := w' \<rparr>)"
  by (cases "Dashboard_hook (tree p)") (simp_all add: page_ok_def)

lemma page_ok_step: "page_ok p \<Longrightarrow> page_ok (page_step p a)"
proof (cases a)
  case (Below b)
  assume ok: "page_ok p"
  show ?thesis
  proof (cases b)
    case (Render_Dashboard x)
    with Below ok show ?thesis by simp
  next
    case Unmount_Dashboard
    with Below ok show ?thesis by simp
  next
    case Render_RealTimeUpdates
    with Below ok show ?thesis by (simp add: page_ok_frame static_RealTimeUpdates_render)
  next
    case Unmount_RealTimeUpdates
    with Below ok show ?thesis by (simp add: page_ok_frame static_RealTimeUpdates_unmount)
  next
    case (Emit h ev rd d)
    with Below ok show ?thesis by (simp add: page_ok_frame static_emit)
  next
    case Click_ClearAll
    with Below ok show ?thesis by (simp add: page_ok_frame clearUpdates_def static_def)
  qed
qed (simp_all add: page_ok_handleLogin page_ok_handleLogout page_ok_Index_effect)

lemma page_ok_foldl: "page_ok p \<Longrightarrow> page_ok (foldl page_step p acts)"
  by (induction acts arbitrary: p) (simp_all add: page_ok_step)

lemma page_ok_run: "page_ok (page_run acts)"
  unfolding page_run_def
  by (rule page_ok_foldl) (simp add: page_ok_def Index_initial_def initial_def static_def)

lemma page_ok_open:
  assumes "page_ok p" and "k < length (transports (tree p))" and "\<not> closed (transports (tree p) ! k)"
  shows "auth_token (transports (tree p) ! k) = token p \<and> token p \<noteq> None"
proof (cases "Dashboard_hook (tree p)")
  case None
  with assms(1) have "\<forall>k < length (static (tree p)). snd (static (tree p) ! k)"
    by (simp add: page_ok_def)
  with assms(2,3) show ?thesis by (simp add: static_def)
next
  case (Some th)
  obtain t' h where th: "th = (t', h)" by (cases th)
  from assms(1) Some th have h: "h < length (static (tree p))"
    and o: "\<forall>k < length (static (tree p)). k \<noteq> h \<longrightarrow> snd (static (tree p) ! k)"
    and t': "t' = token p" and sh: "static (tree p) ! h = (token p, False)"
    and n: "token p \<noteq> None"
    by (simp_all add: page_ok_def)
  from o assms(2,3) have "k = h" by (auto simp: static_def)
  with sh h Some th t' n show ?thesis by (simp add: static_def)
qed

lemma page_open_transport:
  assumes "k < length (transports (tree (page_run pacts)))"
    and "\<not> closed (transports (tree (page_run pacts)) ! k)"
  shows "auth_token (transports (tree (page_run pacts)) ! k) = token (page_run pacts)
         \<and> token (page_run pacts) \<noteq> None"
  using page_ok_open[OF page_ok_run assms] by simp

section \<open>When rendering a payload fails\<close>








section \<open>The claims\<close>

subsection \<open>C1: the retained feed is bounded\<close>

text \<open>
  Claim C1. Whatever the components go through (renders, unmounts, events delivered by
  any transport, clicks on Clear All, in any order and number), the list \<open>updates\<close> never
  holds more than 50 records; and one call of the updater yields at most 50 records from
  any previous list.
\<close>

theorem feed_never_exceeds_capacity:
  "length (updates (run acts)) \<le> 50 \<and> length (addUpdate e ty d prev) \<le> 50"
proof
  show "length (updates (run acts)) \<le> 50"
    unfolding run_def by (rule foldl_step_bounded) (simp add: initial_def)
  show "length (addUpdate e ty d prev) \<le> 50"
    by (simp add: addUpdate_length)
qed

subsection \<open>C2: the most recent records are retained\<close>

text \<open>
  Claim C2. Messages delivered by the transport the feed is attached to are received one
  after the other. After more than 50 messages the feed is exactly the records of the last 50
  messages, newest first, whatever it held before; when the records are pairwise
  different, none of the older ones is in it. The updater is the instance at 50 of the
  updater with the bound as a parameter, and with bound 2 the messages A, B, C in this
  order leave [C, B], without A.
\<close>

theorem retains_most_recent:
  "(RealTimeUpdates_hook (run acts) = Some (Some h) \<longrightarrow>
      updates (run (acts @ map (deliver h) msgs)) = foldl receive (updates (run acts)) msgs)
   \<and> (50 < length msgs \<longrightarrow>
      foldl receive s msgs = rev (map record_of (drop (length msgs - 50) msgs)))
   \<and> (50 < length msgs \<longrightarrow> distinct (map record_of msgs) \<longrightarrow>
        (\<forall>m \<in> set (take (length msgs - 50) msgs). record_of m \<notin> set (foldl receive s msgs)))
   \<and> (receive :: 'd RealTimeUpdate list \<Rightarrow> 'd message \<Rightarrow> 'd RealTimeUpdate list) = receive_cap 50
   \<and> foldl (receive_cap 2) [] [A, B, C] = [record_of C, record_of B]
   \<and> (record_of A \<noteq> record_of B \<longrightarrow> record_of A \<noteq> record_of C \<longrightarrow>
        record_of A \<notin> set (foldl (receive_cap 2) [] [A, B, (C :: 'd message)]))"
proof (intro conjI impI ballI)
  assume "RealTimeUpdates_hook (run acts) = Some (Some h)"
  with paired_world_run[of acts]
  have "updates (foldl step (run acts) (map (deliver h) msgs)) = foldl receive (updates (run acts)) msgs"
    by (rule deliver_attached)
  then show "updates (run (acts @ map (deliver h) msgs)) = foldl receive (updates (run acts)) msgs"
    by (simp only: foldl_step_run)
next
  assume "50 < length msgs"
  then show "foldl receive s msgs = rev (map record_of (drop (length msgs - 50) msgs))"
    by (simp only: receive_cap_50) (rule foldl_receive_recent, simp_all)
next
  fix m
  assume len: "50 < length msgs" and d: "distinct (map record_of msgs)"
    and m: "m \<in> set (take (length msgs - 50) msgs)"
  from len have "foldl receive s msgs = rev (map record_of (drop (length msgs - 50) msgs))"
    by (simp only: receive_cap_50) (rule foldl_receive_recent, simp_all)
  with older_absent[OF d m] show "record_of m \<notin> set (foldl receive s msgs)" by simp
next
  show "(receive :: 'd RealTimeUpdate list \<Rightarrow> 'd message \<Rightarrow> 'd RealTimeUpdate list) = receive_cap 50"
    by (rule receive_cap_50)
next
  show "foldl (receive_cap 2) [] [A, B, C] = [record_of C, record_of B]"
    using foldl_receive_recent[of 2 "[A, B, C]" "[]"] by simp
next
  assume "record_of A \<noteq> record_of B" and "record_of A \<noteq> record_of C"
  moreover have "foldl (receive_cap 2) [] [A, B, C] = [record_of C, record_of B]"
    using foldl_receive_recent[of 2 "[A, B, C]" "[]"] by simp
  ultimately show "record_of A \<notin> set (foldl (receive_cap 2) [] [A, B, C])" by simp
qed

text \<open>At 51 sample messages the record of the first one is gone.\<close>

theorem retains_most_recent_witness:
  "50 < length (map sample_message [0..<51])
   \<and> distinct (map record_of (map sample_message [0..<51]))
   \<and> foldl receive [] (map sample_message [0..<51]) = rev (map record_of (map sample_message [1..<51]))
   \<and> sample_message 0 \<in> set (take (length (map sample_message [0..<51]) - 50) (map sample_message [0..<51]))
   \<and> record_of (sample_message 0) \<notin> set (foldl receive [] (map sample_message [0..<51]))
   \<and> RealTimeUpdates_hook (run [Render_Dashboard (Some ''t''), Render_RealTimeUpdates] :: nat world)
         = Some (Some 0)
   \<and> updates (run ([Render_Dashboard (Some ''t''), Render_RealTimeUpdates]
         @ map (deliver 0) (map sample_message [0..<51])))
       = rev (map record_of (map sample_message [1..<51]))
   \<and> record_of (sample_message 0) \<noteq> record_of (sample_message 1)
   \<and> record_of (sample_message 0) \<noteq> record_of (sample_message 2)
   \<and> record_of (sample_message 0)
         \<notin> set (foldl (receive_cap 2) [] [sample_message 0, sample_message 1, sample_message 2])"
proof -
  let ?msgs = "map sample_message [0..<51]"
  have ab: "record_of (sample_message 0) \<noteq> record_of (sample_message 1)"
    by (simp add: sample_message_def newUpdate_def)
  have ac: "record_of (sample_message 0) \<noteq> record_of (sample_message 2)"
    by (simp add: sample_message_def newUpdate_def)
  have "record_of (sample_message 0) \<noteq> record_of (sample_message 1) \<longrightarrow>
      record_of (sample_message 0) \<noteq> record_of (sample_message 2) \<longrightarrow>
      record_of (sample_message 0)
        \<notin> set (foldl (receive_cap 2) [] [sample_message 0, sample_message 1, sample_message 2])"
    by (rule retains_most_recent[of _ _ _ _ "sample_message 0" "sample_message 1" "sample_message 2",
          THEN conjunct2, THEN conjunct2, THEN conjunct2, THEN conjunct2, THEN conjunct2])
  with ab ac have abc: "record_of (sample_message 0)
      \<notin> set (foldl (receive_cap 2) [] [sample_message 0, sample_message 1, sample_message 2])"
    by blast
  have len: "50 < length ?msgs" by simp
  have dis: "distinct (map record_of ?msgs)"
    by (simp add: distinct_map inj_on_def sample_message_def newUpdate_def)
  have old: "sample_message 0 \<in> set (take (length ?msgs - 50) ?msgs)"
    by (simp add: take_map take_upt)
  note t = retains_most_recent[of _ _ ?msgs "[]", THEN conjunct2]
  from t[THEN conjunct1] len
  have r: "foldl receive [] ?msgs = rev (map record_of (drop (length ?msgs - 50) ?msgs))"
    by (rule mp)
  from t[THEN conjunct2, THEN conjunct1] len
  have "distinct (map record_of ?msgs) \<longrightarrow>
      (\<forall>m \<in> set (take (length ?msgs - 50) ?msgs). record_of m \<notin> set (foldl receive [] ?msgs))"
    by (rule mp)
  from this dis
  have "\<forall>m \<in> set (take (length ?msgs - 50) ?msgs). record_of m \<notin> set (foldl receive [] ?msgs)"
    by (rule mp)
  from this old have a: "record_of (sample_message 0) \<notin> set (foldl receive [] ?msgs)" by (rule bspec)
  have "drop (length ?msgs - 50) ?msgs = map sample_message [1..<51]"
    by (simp add: drop_map)
  with r have r': "foldl receive [] ?msgs = rev (map record_of (map sample_message [1..<51]))"
    by simp
  let ?acts = "[Render_Dashboard (Some ''t''), Render_RealTimeUpdates] :: nat action list"
  have hk: "RealTimeUpdates_hook (run ?acts) = Some (Some 0)" by (simp add: world_defs)
  have em: "updates (run ?acts) = []" by (simp add: world_defs)
  have "RealTimeUpdates_hook (run ?acts) = Some (Some 0) \<longrightarrow>
      updates (run (?acts @ map (deliver 0) ?msgs)) = foldl receive (updates (run ?acts)) ?msgs"
    by (rule retains_most_recent[of ?acts 0 ?msgs, THEN conjunct1])
  with hk have "updates (run (?acts @ map (deliver 0) ?msgs)) = foldl receive (updates (run ?acts)) ?msgs"
    by (rule rev_mp)
  with em r' have w: "updates (run (?acts @ map (deliver 0) ?msgs))
      = rev (map record_of (map sample_message [1..<51]))" by simp
  from len dis r' old a hk w ab ac abc show ?thesis by (intro conjI)
qed

subsection \<open>C3: what makes identifiers differ\<close>

text \<open>
  Claim C3, as the code has it. The identifier of a record is built from the channel
  name, the millisecond clock and the random draw, and two records have the same
  identifier exactly when they agree on all three. So the identifiers in the feed are
  pairwise different whenever the messages received differ pairwise in channel, clock
  reading or draw; nothing else keeps two messages of one channel that arrive in the same
  millisecond apart.
\<close>

theorem id_determined_by_type_clock_and_draw:
  "(id_upd (newUpdate e1 t1 d1) = id_upd (newUpdate e2 t2 d2)
      \<longleftrightarrow> t1 = t2 \<and> Date_now e1 = Date_now e2 \<and> Math_random e1 = Math_random e2)
   \<and> (distinct (map key_of msgs) \<longrightarrow> distinct (map id_upd (foldl receive [] msgs)))"
  by (simp add: id_upd_inj distinct_ids)

theorem id_determined_by_type_clock_and_draw_witness:
  "distinct (map key_of [(sample_env, report_update, JNum 1), (sample_env\<lparr> Math_random := ''0.25'' \<rparr>, report_update, JNum 1)])
   \<and> id_upd (newUpdate sample_env report_update (JNum 1))
       \<noteq> id_upd (newUpdate (sample_env\<lparr> Math_random := ''0.25'' \<rparr>) report_update (JNum 1))
   \<and> distinct (map id_upd (foldl receive [] [(sample_env, report_update, JNum 1),
        (sample_env\<lparr> Math_random := ''0.25'' \<rparr>, report_update, JNum 1)]))
   \<and> id_upd (newUpdate sample_env report_update (JNum 1)) = ''report-update-1700000000000-0.5''
   \<and> id_upd (newUpdate (sample_env\<lparr> Date_now := - 42 \<rparr>) social_media_updated (JNum 1))
       = ''social_media_updated--42-0.5''"
proof -
  have r1: "id_upd (newUpdate sample_env report_update (JNum 1)) = ''report-update-1700000000000-0.5''"
    by (simp add: newUpdate_def sample_env_def show_int_def show_nat.simps digit_char_def)
  have r2: "id_upd (newUpdate (sample_env\<lparr> Date_now := - 42 \<rparr>) social_media_updated (JNum 1))
       = ''social_media_updated--42-0.5''"
    by (simp add: newUpdate_def sample_env_def show_int_def show_nat.simps digit_char_def)
  have d: "distinct (map key_of [(sample_env, report_update, JNum 1), (sample_env\<lparr> Math_random := ''0.25'' \<rparr>, report_update, JNum 1)])"
    by (simp add: key_of_def sample_env_def)
  have i: "id_upd (newUpdate sample_env report_update (JNum 1))
       \<noteq> id_upd (newUpdate (sample_env\<lparr> Math_random := ''0.25'' \<rparr>) report_update (JNum 1))"
    using id_determined_by_type_clock_and_draw[of sample_env report_update "JNum 1"
        "sample_env\<lparr> Math_random := ''0.25'' \<rparr>" report_update "JNum 1", THEN conjunct1]
    by (simp add: sample_env_def)
  have "distinct (map key_of [(sample_env, report_update, JNum 1), (sample_env\<lparr> Math_random := ''0.25'' \<rparr>, report_update, JNum 1)])
     \<longrightarrow> distinct (map id_upd (foldl receive [] [(sample_env, report_update, JNum 1),
        (sample_env\<lparr> Math_random := ''0.25'' \<rparr>, report_update, JNum 1)]))"
    by (rule id_determined_by_type_clock_and_draw[THEN conjunct2])
  with d i r1 r2 show ?thesis by blast
qed

text \<open>
  Two different messages on one channel, handled with the same clock reading and the
  same draw, leave two records with one identifier.
\<close>

theorem same_instant_same_draw_same_id:
  "\<not> distinct (map id_upd (updates (run [Render_Dashboard (Some ''t''), Render_RealTimeUpdates,
        Emit 0 ''report-update'' (always sample_env) (JNum 1),
        Emit 0 ''report-update'' (always sample_env) (JNum 2)])))"
  by (simp add: world_defs addUpdate_def newUpdate_def always_def)

subsection \<open>C4: the transport follows the token\<close>

text \<open>
  Claim C4, as the code has it. Dashboard's effect depends on the token alone. A render
  with the token of the last run changes nothing and creates no transport. A render with
  another token, an absent one included, closes the transport of the last run and opens a
  new one that carries the new token; the first render opens one whatever the token is.
  That no transport is open without a token is the page's doing: it renders Dashboard only
  while authenticated, so every transport still open carries the page's present token.
\<close>

theorem Dashboard_effect_keyed_on_token:
  "(Dashboard_hook w = Some (tok, h) \<longrightarrow> Dashboard_render tok w = w)
   \<and> (Dashboard_hook w = Some (tok', h) \<longrightarrow> tok' \<noteq> tok \<longrightarrow> h < length (transports w) \<longrightarrow>
        length (transports (Dashboard_render tok w)) = Suc (length (transports w))
        \<and> closed (transports (Dashboard_render tok w) ! h)
        \<and> auth_token (transports (Dashboard_render tok w) ! length (transports w)) = tok
        \<and> \<not> closed (transports (Dashboard_render tok w) ! length (transports w))
        \<and> socket (Dashboard_render tok w) = Some (length (transports w))
        \<and> Dashboard_hook (Dashboard_render tok w) = Some (tok, length (transports w)))
   \<and> (Dashboard_hook w = None \<longrightarrow>
        length (transports (Dashboard_render tok w)) = Suc (length (transports w))
        \<and> auth_token (transports (Dashboard_render tok w) ! length (transports w)) = tok
        \<and> \<not> closed (transports (Dashboard_render tok w) ! length (transports w))
        \<and> socket (Dashboard_render tok w) = Some (length (transports w)))
   \<and> (k < length (transports (tree (page_run pacts))) \<longrightarrow>
        \<not> closed (transports (tree (page_run pacts)) ! k) \<longrightarrow>
        auth_token (transports (tree (page_run pacts)) ! k) = token (page_run pacts)
        \<and> token (page_run pacts) \<noteq> None)"
proof (intro conjI impI)
  assume "Dashboard_hook w = Some (tok, h)"
  then show "Dashboard_render tok w = w" by (simp add: Dashboard_render_def)
next
  assume a: "Dashboard_hook w = Some (tok', h)" "tok' \<noteq> tok" "h < length (transports w)"
  then have r: "Dashboard_render tok w = Dashboard_effect tok (Dashboard_cleanup h w)"
    by (simp add: Dashboard_render_def)
  have l: "length (transports (Dashboard_cleanup h w)) = length (transports w)"
    by (simp add: Dashboard_cleanup_def)
  show "length (transports (Dashboard_render tok w)) = Suc (length (transports w))"
    by (simp add: r Dashboard_effect_def Let_def l)
  show "closed (transports (Dashboard_render tok w) ! h)"
    using a(3) by (simp add: r Dashboard_effect_def Let_def nth_append l)
       (simp add: Dashboard_cleanup_def socket_close_def)
  show "auth_token (transports (Dashboard_render tok w) ! length (transports w)) = tok"
    by (simp add: r Dashboard_effect_def Let_def nth_append l socket_on_def io_def)
  show "\<not> closed (transports (Dashboard_render tok w) ! length (transports w))"
    by (simp add: r Dashboard_effect_def Let_def nth_append l socket_on_def io_def)
  show "socket (Dashboard_render tok w) = Some (length (transports w))"
    by (simp add: r Dashboard_effect_def Let_def l)
  show "Dashboard_hook (Dashboard_render tok w) = Some (tok, length (transports w))"
    by (simp add: r Dashboard_effect_def Let_def l)
next
  assume "Dashboard_hook w = None"
  then have r: "Dashboard_render tok w
      = Dashboard_effect tok (w\<lparr> socket := None, isConnected_Dashboard := False \<rparr>)"
    by (simp add: Dashboard_render_def)
  show "length (transports (Dashboard_render tok w)) = Suc (length (transports w))"
    by (simp add: r Dashboard_effect_def Let_def)
  show "auth_token (transports (Dashboard_render tok w) ! length (transports w)) = tok"
    by (simp add: r Dashboard_effect_def Let_def socket_on_def io_def)
  show "\<not> closed (transports (Dashboard_render tok w) ! length (transports w))"
    by (simp add: r Dashboard_effect_def Let_def socket_on_def io_def)
  show "socket (Dashboard_render tok w) = Some (length (transports w))"
    by (simp add: r Dashboard_effect_def Let_def)
next
  assume "k < length (transports (tree (page_run pacts)))"
    and "\<not> closed (transports (tree (page_run pacts)) ! k)"
  then show "auth_token (transports (tree (page_run pacts)) ! k) = token (page_run pacts)"
    and "token (page_run pacts) \<noteq> None"
    using page_open_transport by blast+
qed

theorem Dashboard_effect_keyed_on_token_witness:
  "Dashboard_hook (run [Render_Dashboard (Some ''a'')] :: json world) = Some (Some ''a'', 0)
   \<and> Dashboard_render (Some ''a'') (run [Render_Dashboard (Some ''a'')] :: json world)
       = run [Render_Dashboard (Some ''a'')]
   \<and> Some ''a'' \<noteq> Some ''b''
   \<and> 0 < length (transports (run [Render_Dashboard (Some ''a'')] :: json world))
   \<and> closed (transports (Dashboard_render (Some ''b'') (run [Render_Dashboard (Some ''a'')] :: json world)) ! 0)
   \<and> auth_token (transports (Dashboard_render (Some ''b'') (run [Render_Dashboard (Some ''a'')] :: json world)) ! 1) = Some ''b''
   \<and> Dashboard_hook (initial :: json world) = None
   \<and> length (transports (Dashboard_render (Some ''a'') (initial :: json world))) = 1
   \<and> token (page_run [Login ''a'', Logout, Login ''b''] :: json page) = Some ''b''
   \<and> static (tree (page_run [Login ''a'', Logout, Login ''b''] :: json page))
       = [(Some ''a'', True), (Some ''b'', False)]
   \<and> auth_token (transports (tree (page_run [Login ''a'', Logout, Login ''b''] :: json page)) ! 1)
       = token (page_run [Login ''a'', Logout, Login ''b''] :: json page)"
proof -
  let ?w = "run [Render_Dashboard (Some ''a'')] :: json world"
  let ?p = "page_run [Login ''a'', Logout, Login ''b''] :: json page"
  note t = Dashboard_effect_keyed_on_token
  have h: "Dashboard_hook ?w = Some (Some ''a'', 0)" by (simp add: world_defs)
  have n: "Some ''a'' \<noteq> Some ''b''" by simp
  have l: "0 < length (transports ?w)" by (simp add: world_defs)
  have l1: "length (transports ?w) = 1" by (simp add: world_defs)
  have i: "Dashboard_hook (initial :: json world) = None" by (simp add: initial_def)
  from t[of ?w "Some ''a''" 0, THEN conjunct1] h
  have same: "Dashboard_render (Some ''a'') ?w = ?w" by (rule mp)
  have "Dashboard_hook ?w = Some (Some ''a'', 0) \<longrightarrow> Some ''a'' \<noteq> Some ''b'' \<longrightarrow> 0 < length (transports ?w) \<longrightarrow>
        length (transports (Dashboard_render (Some ''b'') ?w)) = Suc (length (transports ?w))
        \<and> closed (transports (Dashboard_render (Some ''b'') ?w) ! 0)
        \<and> auth_token (transports (Dashboard_render (Some ''b'') ?w) ! length (transports ?w)) = Some ''b''
        \<and> \<not> closed (transports (Dashboard_render (Some ''b'') ?w) ! length (transports ?w))
        \<and> socket (Dashboard_render (Some ''b'') ?w) = Some (length (transports ?w))
        \<and> Dashboard_hook (Dashboard_render (Some ''b'') ?w) = Some (Some ''b'', length (transports ?w))"
    by (rule t[of ?w "Some ''b''" _ "Some ''a''" 0, THEN conjunct2, THEN conjunct1])
  with h n l l1 have changed: "closed (transports (Dashboard_render (Some ''b'') ?w) ! 0)"
    "auth_token (transports (Dashboard_render (Some ''b'') ?w) ! 1) = Some ''b''"
    by simp_all
  have "Dashboard_hook (initial :: json world) = None \<longrightarrow>
        length (transports (Dashboard_render (Some ''a'') (initial :: json world))) = Suc (length (transports (initial :: json world)))
        \<and> auth_token (transports (Dashboard_render (Some ''a'') (initial :: json world)) ! length (transports (initial :: json world))) = Some ''a''
        \<and> \<not> closed (transports (Dashboard_render (Some ''a'') (initial :: json world)) ! length (transports (initial :: json world)))
        \<and> socket (Dashboard_render (Some ''a'') (initial :: json world)) = Some (length (transports (initial :: json world)))"
    by (rule t[of "initial :: json world" "Some ''a''", THEN conjunct2, THEN conjunct2, THEN conjunct1])
  with i have mount: "length (transports (Dashboard_render (Some ''a'') (initial :: json world))) = 1"
    by (simp add: initial_def)
  have tk: "token ?p = Some ''b''" by (simp add: page_defs)
  have st: "static (tree ?p) = [(Some ''a'', True), (Some ''b'', False)]"
    by (simp add: page_defs world_defs static_def)
  have k: "1 < length (transports (tree ?p))" by (simp add: page_defs world_defs)
  have o: "\<not> closed (transports (tree ?p) ! 1)" by (simp add: page_defs world_defs)
  have "1 < length (transports (tree ?p)) \<longrightarrow> \<not> closed (transports (tree ?p) ! 1) \<longrightarrow>
      auth_token (transports (tree ?p) ! 1) = token ?p \<and> token ?p \<noteq> None"
    by (rule t[of _ _ _ _ 1 "[Login ''a'', Logout, Login ''b'']",
          THEN conjunct2, THEN conjunct2, THEN conjunct2])
  with k o have au: "auth_token (transports (tree ?p) ! 1) = token ?p" by blast
  from h same n l changed i mount tk st au show ?thesis by (intro conjI)
qed

text \<open>
  Rendered with an absent token, Dashboard opens a transport all the same, on the first
  render and after a present token.
\<close>

theorem absent_credential_opens_transport:
  "static (run [Render_Dashboard None] :: json world) = [(None, False)]
   \<and> static (run [Render_Dashboard (Some ''secret''), Render_Dashboard None] :: json world)
       = [(Some ''secret'', True), (None, False)]"
  by (simp add: world_defs static_def)

subsection \<open>C5: messages are prepended with their channel name\<close>

text \<open>
  Claim C5. While the feed is attached to a transport, a message that this transport
  delivers on one of the four channels puts one record in front of the feed and keeps the
  first 49 of the records before it. The record holds the channel the message came on, the
  payload as delivered, the time text read at receipt, and the identifier made of the
  channel name, the clock reading and the random draw. From the empty feed, a
  disaster-update with payload id 7 followed by a resource-update with payload id 3 leaves
  exactly two records: the resource-update with payload id 3 first, the disaster-update
  with payload id 7 second.
\<close>

theorem messages_are_prepended:
  "(RealTimeUpdates_hook (run acts) = Some (Some h) \<longrightarrow>
      updates (run (acts @ [Emit h (type_name ty) rd d]))
        = \<lparr> id_upd = type_name ty @ ''-'' @ show_int (Date_now (rd 0)) @ ''-'' @ Math_random (rd 0),
            type_upd = ty,
            data = d,
            timestamp = Date_toISOString (rd 0) \<rparr>
          # take 49 (updates (run acts)))
   \<and> map type_name [disaster_update, resource_update, report_update, social_media_updated]
       = [''disaster-update'', ''resource-update'', ''report-update'', ''social_media_updated'']
   \<and> updates (run [Render_Dashboard tok, Render_RealTimeUpdates,
        Emit 0 ''disaster-update'' rd1 (JObj [(''id'', JNum 7)]),
        Emit 0 ''resource-update'' rd2 (JObj [(''id'', JNum 3)])])
      = [\<lparr> id_upd = ''resource-update-'' @ show_int (Date_now (rd2 0)) @ ''-'' @ Math_random (rd2 0),
           type_upd = resource_update,
           data = JObj [(''id'', JNum 3)],
           timestamp = Date_toISOString (rd2 0) \<rparr>,
         \<lparr> id_upd = ''disaster-update-'' @ show_int (Date_now (rd1 0)) @ ''-'' @ Math_random (rd1 0),
           type_upd = disaster_update,
           data = JObj [(''id'', JNum 7)],
           timestamp = Date_toISOString (rd1 0) \<rparr>]"
proof (intro conjI impI)
  assume "RealTimeUpdates_hook (run acts) = Some (Some h)"
  with paired_world_run[of acts]
  have "updates (emit h (type_name ty) rd d (run acts)) = newUpdate (rd 0) ty d # take 49 (updates (run acts))"
    by (rule emit_on_attached)
  then show "updates (run (acts @ [Emit h (type_name ty) rd d]))
        = \<lparr> id_upd = type_name ty @ ''-'' @ show_int (Date_now (rd 0)) @ ''-'' @ Math_random (rd 0),
            type_upd = ty,
            data = d,
            timestamp = Date_toISOString (rd 0) \<rparr>
          # take 49 (updates (run acts))"
    by (simp add: run_snoc newUpdate_def)
next
  show "map type_name [disaster_update, resource_update, report_update, social_media_updated]
       = [''disaster-update'', ''resource-update'', ''report-update'', ''social_media_updated'']"
    by simp
next
  show "updates (run [Render_Dashboard tok, Render_RealTimeUpdates,
        Emit 0 ''disaster-update'' rd1 (JObj [(''id'', JNum 7)]),
        Emit 0 ''resource-update'' rd2 (JObj [(''id'', JNum 3)])])
      = [\<lparr> id_upd = ''resource-update-'' @ show_int (Date_now (rd2 0)) @ ''-'' @ Math_random (rd2 0),
           type_upd = resource_update,
           data = JObj [(''id'', JNum 3)],
           timestamp = Date_toISOString (rd2 0) \<rparr>,
         \<lparr> id_upd = ''disaster-update-'' @ show_int (Date_now (rd1 0)) @ ''-'' @ Math_random (rd1 0),
           type_upd = disaster_update,
           data = JObj [(''id'', JNum 7)],
           timestamp = Date_toISOString (rd1 0) \<rparr>]"
    by (simp add: world_defs addUpdate_def newUpdate_def)
qed

text \<open>
  One message on the fourth channel, with the sample readings: the record in the feed,
  field by field.
\<close>

theorem messages_are_prepended_witness:
  "RealTimeUpdates_hook (run [Render_Dashboard (Some ''t''), Render_RealTimeUpdates] :: json world) = Some (Some 0)
   \<and> updates (run ([Render_Dashboard (Some ''t''), Render_RealTimeUpdates]
        @ [Emit 0 (type_name social_media_updated) (always sample_env) (JStr ''flood'')]))
      = [\<lparr> id_upd = ''social_media_updated-1700000000000-0.5'',
           type_upd = social_media_updated,
           data = JStr ''flood'',
           timestamp = ''2023-11-14T22:13:20.000Z'' \<rparr>]"
proof -
  let ?acts = "[Render_Dashboard (Some ''t''), Render_RealTimeUpdates] :: json action list"
  have h: "RealTimeUpdates_hook (run ?acts) = Some (Some 0)"
    by (simp add: world_defs)
  have e: "updates (run ?acts) = []"
    by (simp add: world_defs)
  have "RealTimeUpdates_hook (run ?acts) = Some (Some 0) \<longrightarrow>
      updates (run (?acts @ [Emit 0 (type_name social_media_updated) (always sample_env) (JStr ''flood'')]))
        = \<lparr> id_upd = type_name social_media_updated @ ''-'' @ show_int (Date_now (always sample_env 0))
                @ ''-'' @ Math_random (always sample_env 0),
            type_upd = social_media_updated,
            data = JStr ''flood'',
            timestamp = Date_toISOString (always sample_env 0) \<rparr>
          # take 49 (updates (run ?acts))"
    by (rule messages_are_prepended[of ?acts 0 social_media_updated "always sample_env" "JStr ''flood''",
          THEN conjunct1])
  with h have "updates (run (?acts @ [Emit 0 (type_name social_media_updated) (always sample_env) (JStr ''flood'')]))
        = \<lparr> id_upd = type_name social_media_updated @ ''-'' @ show_int (Date_now (always sample_env 0))
                @ ''-'' @ Math_random (always sample_env 0),
            type_upd = social_media_updated,
            data = JStr ''flood'',
            timestamp = Date_toISOString (always sample_env 0) \<rparr>
          # take 49 (updates (run ?acts))"
    by (rule rev_mp)
  then have "updates (run (?acts @ [Emit 0 (type_name social_media_updated) (always sample_env) (JStr ''flood'')]))
      = [\<lparr> id_upd = ''social_media_updated-1700000000000-0.5'',
           type_upd = social_media_updated,
           data = JStr ''flood'',
           timestamp = ''2023-11-14T22:13:20.000Z'' \<rparr>]"
    by (simp add: e always_def sample_env_def show_int_def show_nat.simps digit_char_def)
  with h show ?thesis by simp
qed

subsection \<open>C6: no records after detaching\<close>

text \<open>
  Claim C6. Events delivered by a transport the feed is not attached to never change the
  feed, however many follow; after RealTimeUpdates is unmounted, no event of any
  transport does. The cleanup leaves no listener for any of the four channels on the
  transport it detaches from, so a message on them finds nothing to call.
\<close>

theorem no_records_after_detach:
  "(RealTimeUpdates_hook (run acts) \<noteq> Some (Some h) \<longrightarrow> (\<forall>a \<in> set evs. emits_on h a) \<longrightarrow>
      updates (run (acts @ evs)) = updates (run acts))
   \<and> ((\<forall>a \<in> set evs. is_Emit a) \<longrightarrow>
      updates (foldl step (step (run acts) Unmount_RealTimeUpdates) evs) = updates (run acts))
   \<and> listeners_for (type_name ty) (detach s) = []
   \<and> updates (emit h (type_name ty) rd d (RealTimeUpdates_cleanup (Some h) w)) = updates w"
proof (intro conjI impI)
  assume "RealTimeUpdates_hook (run acts) \<noteq> Some (Some h)" and "\<forall>a \<in> set evs. emits_on h a"
  with paired_world_run[of acts] have "updates (foldl step (run acts) evs) = updates (run acts)"
    by (rule emits_elsewhere)
  then show "updates (run (acts @ evs)) = updates (run acts)" by (simp only: foldl_step_run)
next
  assume e: "\<forall>a \<in> set evs. is_Emit a"
  have "released (RealTimeUpdates_unmount (run acts))"
    using paired_world_run by (rule unmount_released)
  from emits_released[OF this e]
  show "updates (foldl step (step (run acts) Unmount_RealTimeUpdates) evs) = updates (run acts)"
    by simp
next
  show "listeners_for (type_name ty) (detach s) = []" by (rule listeners_for_detach)
next
  show "updates (emit h (type_name ty) rd d (RealTimeUpdates_cleanup (Some h) w)) = updates w"
  proof (cases "h < length (transports w)")
    case True
    then have "listeners_for (type_name ty) (transports (RealTimeUpdates_cleanup (Some h) w) ! h) = []"
      by (simp add: RealTimeUpdates_cleanup_def with_socket_def listeners_for_detach)
    with True show ?thesis by (simp add: emit_def)
  next
    case False
    then show ?thesis by (simp add: emit_def)
  qed
qed

theorem no_records_after_detach_witness:
  "updates (run [Render_Dashboard (Some ''t''), Render_RealTimeUpdates,
        Emit 0 ''report-update'' (always sample_env) (JNum 1), Unmount_RealTimeUpdates,
        Emit 0 ''report-update'' (always sample_env) (JNum 2),
        Emit 0 ''disaster-update'' (always sample_env) (JNum 3)])
   = [newUpdate sample_env report_update (JNum 1)]
   \<and> updates (foldl step (step (run [Render_Dashboard (Some ''t''), Render_RealTimeUpdates,
        Emit 0 ''report-update'' (always sample_env) (JNum 1)]) Unmount_RealTimeUpdates)
        [Emit 0 ''report-update'' (always sample_env) (JNum 2),
         Emit 0 ''connect'' (always sample_env) JNull])
      = [newUpdate sample_env report_update (JNum 1)]"
proof -
  let ?acts = "[Render_Dashboard (Some ''t''), Render_RealTimeUpdates,
        Emit 0 ''report-update'' (always sample_env) (JNum 1), Unmount_RealTimeUpdates]"
  let ?before = "[Render_Dashboard (Some ''t''), Render_RealTimeUpdates,
        Emit 0 ''report-update'' (always sample_env) (JNum 1)]"
  let ?after = "[Emit 0 ''report-update'' (always sample_env) (JNum 2),
         Emit 0 ''connect'' (always sample_env) JNull]"
  have e: "\<forall>a \<in> set ?after. is_Emit a" by simp
  have "(\<forall>a \<in> set ?after. is_Emit a) \<longrightarrow>
      updates (foldl step (step (run ?before) Unmount_RealTimeUpdates) ?after) = updates (run ?before)"
    by (rule no_records_after_detach[of ?before _ ?after, THEN conjunct2, THEN conjunct1])
  with e have "updates (foldl step (step (run ?before) Unmount_RealTimeUpdates) ?after)
      = updates (run ?before)" by (rule rev_mp)
  moreover have "updates (run ?before) = [newUpdate sample_env report_update (JNum 1)]"
    by (simp add: world_defs addUpdate_def always_def)
  ultimately have second: "updates (foldl step (step (run ?before) Unmount_RealTimeUpdates) ?after)
      = [newUpdate sample_env report_update (JNum 1)]" by simp
  let ?evs = "[Emit 0 ''report-update'' (always sample_env) (JNum 2),
        Emit 0 ''disaster-update'' (always sample_env) (JNum 3)]"
  have a: "RealTimeUpdates_hook (run ?acts) \<noteq> Some (Some 0)" by (simp add: world_defs)
  have b: "\<forall>a \<in> set ?evs. emits_on 0 a" by simp
  have "RealTimeUpdates_hook (run ?acts) \<noteq> Some (Some 0) \<longrightarrow> (\<forall>a \<in> set ?evs. emits_on 0 a) \<longrightarrow>
      updates (run (?acts @ ?evs)) = updates (run ?acts)"
    by (rule no_records_after_detach[of ?acts 0 ?evs, THEN conjunct1])
  with a b have "updates (run (?acts @ ?evs)) = updates (run ?acts)" by (elim impE)
  moreover have "updates (run ?acts) = [newUpdate sample_env report_update (JNum 1)]"
    by (simp add: world_defs addUpdate_def always_def)
  ultimately have first: "updates (run (?acts @ ?evs)) = [newUpdate sample_env report_update (JNum 1)]"
    by simp
  from first second show ?thesis by simp
qed

subsection \<open>C7: clearing empties the feed and nothing else\<close>

text \<open>
  Claim C7. After \<open>clearUpdates\<close> the feed is empty, whatever it held, and both connection
  flags, every transport with its listeners, Dashboard's socket cell and the effect
  bookkeeping are as before; the same holds for a click on Clear All in any run in which
  RealTimeUpdates is mounted.
\<close>

theorem clear_empties_feed_only:
  "updates (clearUpdates w) = []
   \<and> isConnected (clearUpdates w) = isConnected w
   \<and> isConnected_Dashboard (clearUpdates w) = isConnected_Dashboard w
   \<and> transports (clearUpdates w) = transports w
   \<and> socket (clearUpdates w) = socket w
   \<and> RealTimeUpdates_hook (clearUpdates w) = RealTimeUpdates_hook w
   \<and> Dashboard_hook (clearUpdates w) = Dashboard_hook w
   \<and> (RealTimeUpdates_hook (run acts) \<noteq> None \<longrightarrow>
        updates (run (acts @ [Click_ClearAll])) = []
        \<and> isConnected (run (acts @ [Click_ClearAll])) = isConnected (run acts)
        \<and> isConnected_Dashboard (run (acts @ [Click_ClearAll])) = isConnected_Dashboard (run acts)
        \<and> transports (run (acts @ [Click_ClearAll])) = transports (run acts))"
  by (simp add: clearUpdates_def run_snoc)

theorem clear_empties_feed_only_witness:
  "RealTimeUpdates_hook (run [Render_Dashboard (Some ''t''), Render_RealTimeUpdates,
        Emit 0 ''connect'' (always sample_env) JNull,
        Emit 0 ''resource-update'' (always sample_env) (JNum 4)]) \<noteq> None
   \<and> updates (run [Render_Dashboard (Some ''t''), Render_RealTimeUpdates,
        Emit 0 ''connect'' (always sample_env) JNull,
        Emit 0 ''resource-update'' (always sample_env) (JNum 4)])
      = [newUpdate sample_env resource_update (JNum 4)]
   \<and> updates (run ([Render_Dashboard (Some ''t''), Render_RealTimeUpdates,
        Emit 0 ''connect'' (always sample_env) JNull,
        Emit 0 ''resource-update'' (always sample_env) (JNum 4)] @ [Click_ClearAll])) = []
   \<and> isConnected (run ([Render_Dashboard (Some ''t''), Render_RealTimeUpdates,
        Emit 0 ''connect'' (always sample_env) JNull,
        Emit 0 ''resource-update'' (always sample_env) (JNum 4)] @ [Click_ClearAll]))"
proof -
  let ?acts = "[Render_Dashboard (Some ''t''), Render_RealTimeUpdates,
        Emit 0 ''connect'' (always sample_env) JNull,
        Emit 0 ''resource-update'' (always sample_env) (JNum 4)]"
  have h: "RealTimeUpdates_hook (run ?acts) \<noteq> None" by (simp add: world_defs)
  have u: "updates (run ?acts) = [newUpdate sample_env resource_update (JNum 4)]"
    by (simp add: world_defs addUpdate_def always_def)
  have c: "isConnected (run ?acts)" by (simp add: world_defs)
  have "RealTimeUpdates_hook (run ?acts) \<noteq> None \<longrightarrow>
        updates (run (?acts @ [Click_ClearAll])) = []
        \<and> isConnected (run (?acts @ [Click_ClearAll])) = isConnected (run ?acts)
        \<and> isConnected_Dashboard (run (?acts @ [Click_ClearAll])) = isConnected_Dashboard (run ?acts)
        \<and> transports (run (?acts @ [Click_ClearAll])) = transports (run ?acts)"
    by (rule clear_empties_feed_only[of initial ?acts, THEN conjunct2, THEN conjunct2, THEN conjunct2,
          THEN conjunct2, THEN conjunct2, THEN conjunct2, THEN conjunct2])
  with h u c show ?thesis by simp
qed

subsection \<open>C8: every message is recorded, not every record can be rendered\<close>




subsection \<open>C9: the connection flags follow the connection events\<close>

text \<open>
  Claim C9. In every run, a connect event of a transport sets Dashboard's flag to
  connected and a disconnect event sets it to disconnected whenever Dashboard's listeners
  are registered on that transport, which they are on every transport until
  RealTimeUpdates is first rendered; no other event changes the flag. The flag of
  RealTimeUpdates does the same for the transport the feed is attached to, and starts from
  the transport's own state when the feed is mounted. The transport's state follows its
  events. A render of Dashboard with a new token closes the old transport, and a connected
  one reports its disconnect to both flags. So a connect while connected and a disconnect
  while disconnected change neither flag, and a connect or disconnect event never changes
  the feed. Each flag, having two values, alternates between them along a run, starting
  from disconnected.
\<close>

theorem connection_state_alternates:
  "isConnected_Dashboard (run (acts @ [Emit h ev rd d])) =
      (if Dashboard_listens (run acts) h \<and> ev = ''connect'' then True
       else if Dashboard_listens (run acts) h \<and> ev = ''disconnect'' then False
       else isConnected_Dashboard (run acts))
   \<and> isConnected (run (acts @ [Emit h ev rd d])) =
      (if RealTimeUpdates_hook (run acts) = Some (Some h) \<and> ev = ''connect'' then True
       else if RealTimeUpdates_hook (run acts) = Some (Some h) \<and> ev = ''disconnect'' then False
       else isConnected (run acts))
   \<and> ((\<forall>a \<in> set acts. \<not> feed_action a) \<longrightarrow> h < length (transports (run acts)) \<longrightarrow>
        Dashboard_listens (run acts) h)
   \<and> (h < length (transports (run acts)) \<longrightarrow>
        connected (transports (run (acts @ [Emit h ev rd d])) ! h) =
          (if ev = ''connect'' then True else if ev = ''disconnect'' then False
           else connected (transports (run acts) ! h)))
   \<and> (Dashboard_hook (run acts) = Some (tok', h) \<longrightarrow> tok' \<noteq> tok \<longrightarrow>
        isConnected_Dashboard (run (acts @ [Render_Dashboard tok])) =
          (if Dashboard_listens (run acts) h \<and> connected (transports (run acts) ! h) then False
           else isConnected_Dashboard (run acts))
        \<and> isConnected (run (acts @ [Render_Dashboard tok])) =
          (if RealTimeUpdates_hook (run acts) = Some (Some h) \<and> connected (transports (run acts) ! h)
           then False else isConnected (run acts)))
   \<and> (RealTimeUpdates_hook (run acts) = None \<longrightarrow> Dashboard_hook (run acts) \<noteq> None \<longrightarrow>
        socket (run acts) = Some h \<longrightarrow>
        isConnected (run (acts @ [Render_RealTimeUpdates])) = connected (transports (run acts) ! h))
   \<and> (ev = ''connect'' \<or> ev = ''disconnect'' \<longrightarrow>
        updates (run (acts @ [Emit h ev rd d])) = updates (run acts))
   \<and> alternating False (transitions False (map isConnected_Dashboard (trace initial acts)))
   \<and> alternating False (transitions False (map isConnected (trace initial acts)))"
proof (intro conjI impI)
  show "isConnected_Dashboard (run (acts @ [Emit h ev rd d])) =
      (if Dashboard_listens (run acts) h \<and> ev = ''connect'' then True
       else if Dashboard_listens (run acts) h \<and> ev = ''disconnect'' then False
       else isConnected_Dashboard (run acts))"
    using emit_Dashboard_flag[OF paired_world_run, of h ev rd d acts] by (simp add: run_snoc)
  show "isConnected (run (acts @ [Emit h ev rd d])) =
      (if RealTimeUpdates_hook (run acts) = Some (Some h) \<and> ev = ''connect'' then True
       else if RealTimeUpdates_hook (run acts) = Some (Some h) \<and> ev = ''disconnect'' then False
       else isConnected (run acts))"
    using emit_feed_flag[OF paired_world_run, of h ev rd d acts] by (simp add: run_snoc)
next
  assume "\<forall>a \<in> set acts. \<not> feed_action a" and "h < length (transports (run acts))"
  then show "Dashboard_listens (run acts) h"
    by (simp add: only_Dashboard_run only_Dashboard_listens)
next
  assume "h < length (transports (run acts))"
  then show "connected (transports (run (acts @ [Emit h ev rd d])) ! h) =
          (if ev = ''connect'' then True else if ev = ''disconnect'' then False
           else connected (transports (run acts) ! h))"
    by (simp add: run_snoc emit_connected)
next
  assume a: "Dashboard_hook (run acts) = Some (tok', h)" "tok' \<noteq> tok"
  then have r: "run (acts @ [Render_Dashboard tok]) = Dashboard_effect tok (close_transport h (run acts))"
    by (simp add: run_snoc Dashboard_render_def Dashboard_cleanup_def)
  show "isConnected_Dashboard (run (acts @ [Render_Dashboard tok])) =
          (if Dashboard_listens (run acts) h \<and> connected (transports (run acts) ! h) then False
           else isConnected_Dashboard (run acts))"
    by (simp only: r Dashboard_effect_flags close_transport_Dashboard_flag[OF paired_world_run])
  show "isConnected (run (acts @ [Render_Dashboard tok])) =
          (if RealTimeUpdates_hook (run acts) = Some (Some h) \<and> connected (transports (run acts) ! h)
           then False else isConnected (run acts))"
    by (simp only: r Dashboard_effect_flags close_transport_feed_flag[OF paired_world_run])
next
  assume a: "RealTimeUpdates_hook (run acts) = None" "Dashboard_hook (run acts) \<noteq> None"
    "socket (run acts) = Some h"
  from paired_world_run[of acts] a(3) have "h < length (transports (run acts))"
    by (simp add: paired_world_def)
  with a show "isConnected (run (acts @ [Render_RealTimeUpdates])) = connected (transports (run acts) ! h)"
    by (simp add: run_snoc mount_feed_flag)
next
  assume "ev = ''connect'' \<or> ev = ''disconnect''"
  with paired_world_run[of acts] have "updates (emit h ev rd d (run acts)) = updates (run acts)"
    by (rule emit_connect_updates)
  then show "updates (run (acts @ [Emit h ev rd d])) = updates (run acts)" by (simp add: run_snoc)
next
  show "alternating False (transitions False (map isConnected_Dashboard (trace initial acts)))"
    by (rule alternating_transitions)
  show "alternating False (transitions False (map isConnected (trace initial acts)))"
    by (rule alternating_transitions)
qed

text \<open>
  Dashboard's flag along connect, connect, disconnect, connect, a change of token that
  closes the connected transport, and a connect of the new transport; the flag of
  RealTimeUpdates mounted on a connected transport, through a disconnect, a connect and
  the closing of that transport.
\<close>

theorem connection_state_alternates_witness:
  "map isConnected_Dashboard (trace (initial :: json world)
      [Render_Dashboard (Some ''a''), Emit 0 ''connect'' (always sample_env) JNull,
       Emit 0 ''connect'' (always sample_env) JNull, Emit 0 ''disconnect'' (always sample_env) JNull,
       Emit 0 ''connect'' (always sample_env) JNull, Render_Dashboard (Some ''b''),
       Emit 1 ''connect'' (always sample_env) JNull])
     = [False, True, True, False, True, False, True]
   \<and> map isConnected (trace (initial :: json world)
      [Render_Dashboard (Some ''a''), Emit 0 ''connect'' (always sample_env) JNull,
       Render_RealTimeUpdates, Emit 0 ''disconnect'' (always sample_env) JNull,
       Emit 0 ''connect'' (always sample_env) JNull, Render_Dashboard (Some ''b'')])
     = [False, False, True, False, True, False]
   \<and> alternating False (transitions False [False, True, True, False, True, False, True])
   \<and> updates (run ([Render_Dashboard (Some ''t''), Render_RealTimeUpdates,
        Emit 0 ''report-update'' (always sample_env) JNull, Emit 0 ''connect'' (always sample_env) JNull]
        @ [Emit 0 ''connect'' (always sample_env) JNull]))
      = [newUpdate sample_env report_update JNull]
   \<and> connected (transports (run ([Render_Dashboard (Some ''a'')]
        @ [Emit 0 ''connect'' (always sample_env) JNull]) :: json world) ! 0)
   \<and> isConnected (run ([Render_Dashboard (Some ''a''), Emit 0 ''connect'' (always sample_env) JNull]
        @ [Render_RealTimeUpdates]) :: json world)
   \<and> \<not> isConnected (run ([Render_Dashboard (Some ''a''), Emit 0 ''connect'' (always sample_env) JNull,
        Render_RealTimeUpdates] @ [Emit 0 ''disconnect'' (always sample_env) JNull]) :: json world)"
proof -
  let ?c0 = "Emit 0 ''connect'' (always sample_env) JNull :: json action"
  let ?d0 = "Emit 0 ''disconnect'' (always sample_env) JNull :: json action"
  let ?a = "Render_Dashboard (Some ''a'') :: json action"
  let ?b = "Render_Dashboard (Some ''b'') :: json action"
  let ?c1 = "Emit 1 ''connect'' (always sample_env) JNull :: json action"
  note t = connection_state_alternates
  have n1: "\<forall>x \<in> set [?a]. \<not> feed_action x" by simp
  have n2: "\<forall>x \<in> set [?a, ?c0]. \<not> feed_action x" by simp
  have n3: "\<forall>x \<in> set [?a, ?c0, ?c0]. \<not> feed_action x" by simp
  have n4: "\<forall>x \<in> set [?a, ?c0, ?c0, ?d0]. \<not> feed_action x" by simp
  have n5: "\<forall>x \<in> set [?a, ?c0, ?c0, ?d0, ?c0]. \<not> feed_action x" by simp
  have n6: "\<forall>x \<in> set [?a, ?c0, ?c0, ?d0, ?c0, ?b]. \<not> feed_action x" by simp
  have l1: "0 < length (transports (run [?a]))" by (simp add: world_defs)
  have l2: "0 < length (transports (run [?a, ?c0]))" by (simp add: world_defs)
  have l3: "0 < length (transports (run [?a, ?c0, ?c0]))" by (simp add: world_defs)
  have l4: "0 < length (transports (run [?a, ?c0, ?c0, ?d0]))" by (simp add: world_defs)
  have l5: "0 < length (transports (run [?a, ?c0, ?c0, ?d0, ?c0]))" by (simp add: world_defs)
  have l6: "1 < length (transports (run [?a, ?c0, ?c0, ?d0, ?c0, ?b]))" by (simp add: world_defs)
  have f0: "isConnected_Dashboard (run [?a]) = False" by (simp add: world_defs)
  have f1: "isConnected_Dashboard (run ([?a] @ [?c0])) = True"
    using t[of "[?a]" 0 "''connect''" "always sample_env" JNull, THEN conjunct1]
      t[of "[?a]" 0, THEN conjunct2, THEN conjunct2, THEN conjunct1] n1 l1
    by simp
  have f2: "isConnected_Dashboard (run ([?a, ?c0] @ [?c0])) = True"
    using t[of "[?a, ?c0]" 0 "''connect''" "always sample_env" JNull, THEN conjunct1]
      t[of "[?a, ?c0]" 0, THEN conjunct2, THEN conjunct2, THEN conjunct1] n2 l2
    by simp
  have f3: "isConnected_Dashboard (run ([?a, ?c0, ?c0] @ [?d0])) = False"
    using t[of "[?a, ?c0, ?c0]" 0 "''disconnect''" "always sample_env" JNull, THEN conjunct1]
      t[of "[?a, ?c0, ?c0]" 0, THEN conjunct2, THEN conjunct2, THEN conjunct1] n3 l3
    by simp
  have f4: "isConnected_Dashboard (run ([?a, ?c0, ?c0, ?d0] @ [?c0])) = True"
    using t[of "[?a, ?c0, ?c0, ?d0]" 0 "''connect''" "always sample_env" JNull, THEN conjunct1]
      t[of "[?a, ?c0, ?c0, ?d0]" 0, THEN conjunct2, THEN conjunct2, THEN conjunct1] n4 l4
    by simp
  have h5: "Dashboard_hook (run [?a, ?c0, ?c0, ?d0, ?c0]) = Some (Some ''a'', 0)"
    by (simp add: world_defs)
  have c5: "connected (transports (run [?a, ?c0, ?c0, ?d0, ?c0]) ! 0)"
    by (simp add: world_defs)
  have f5: "isConnected_Dashboard (run ([?a, ?c0, ?c0, ?d0, ?c0] @ [?b])) = False"
    using t[of "[?a, ?c0, ?c0, ?d0, ?c0]" 0 _ _ _ "Some ''a''" "Some ''b''",
        THEN conjunct2, THEN conjunct2, THEN conjunct2, THEN conjunct2, THEN conjunct1]
      t[of "[?a, ?c0, ?c0, ?d0, ?c0]" 0, THEN conjunct2, THEN conjunct2, THEN conjunct1] n5 l5 h5 c5
    by simp
  have f6: "isConnected_Dashboard (run ([?a, ?c0, ?c0, ?d0, ?c0, ?b] @ [?c1])) = True"
    using t[of "[?a, ?c0, ?c0, ?d0, ?c0, ?b]" 1 "''connect''" "always sample_env" JNull, THEN conjunct1]
      t[of "[?a, ?c0, ?c0, ?d0, ?c0, ?b]" 1, THEN conjunct2, THEN conjunct2, THEN conjunct1] n6 l6
    by simp
  have first: "map isConnected_Dashboard (trace (initial :: json world) [?a, ?c0, ?c0, ?d0, ?c0, ?b, ?c1])
     = [False, True, True, False, True, False, True]"
    using f0 f1 f2 f3 f4 f5 f6 by (simp add: run_def)
  have second: "map isConnected (trace (initial :: json world)
      [?a, ?c0, Render_RealTimeUpdates, ?d0, ?c0, ?b])
     = [False, False, True, False, True, False]"
    by (simp add: world_defs)
  have "alternating False (transitions False (map isConnected_Dashboard
      (trace (initial :: json world) [?a, ?c0, ?c0, ?d0, ?c0, ?b, ?c1])))"
    by (rule t[THEN conjunct2, THEN conjunct2, THEN conjunct2, THEN conjunct2, THEN conjunct2,
          THEN conjunct2, THEN conjunct2, THEN conjunct1])
  then have third: "alternating False (transitions False [False, True, True, False, True, False, True])"
    by (simp only: first)
  let ?feed = "[Render_Dashboard (Some ''t''), Render_RealTimeUpdates,
        Emit 0 ''report-update'' (always sample_env) JNull, Emit 0 ''connect'' (always sample_env) JNull]"
  have "''connect'' = ''connect'' \<or> ''connect'' = ''disconnect'' \<longrightarrow>
      updates (run (?feed @ [Emit 0 ''connect'' (always sample_env) JNull])) = updates (run ?feed)"
    by (rule t[of ?feed 0 "''connect''" "always sample_env" JNull,
          THEN conjunct2, THEN conjunct2, THEN conjunct2, THEN conjunct2, THEN conjunct2,
          THEN conjunct2, THEN conjunct1])
  moreover have "updates (run ?feed) = [newUpdate sample_env report_update JNull]"
    by (simp add: world_defs addUpdate_def always_def)
  ultimately have fourth: "updates (run (?feed @ [Emit 0 ''connect'' (always sample_env) JNull]))
      = [newUpdate sample_env report_update JNull]" by simp
  have "0 < length (transports (run [?a])) \<longrightarrow>
      connected (transports (run ([?a] @ [?c0])) ! 0) =
        (if ''connect'' = ''connect'' then True else if ''connect'' = ''disconnect'' then False
         else connected (transports (run [?a]) ! 0))"
    by (rule t[of "[?a]" 0 "''connect''" "always sample_env" JNull,
          THEN conjunct2, THEN conjunct2, THEN conjunct2, THEN conjunct1])
  with l1 have fifth: "connected (transports (run ([?a] @ [?c0])) ! 0)" by simp
  have m1: "RealTimeUpdates_hook (run [?a, ?c0]) = None" by (simp add: world_defs)
  have m2: "Dashboard_hook (run [?a, ?c0]) \<noteq> None" by (simp add: world_defs)
  have m3: "socket (run [?a, ?c0]) = Some 0" by (simp add: world_defs)
  have m4: "connected (transports (run [?a, ?c0]) ! 0)" by (simp add: world_defs)
  have "RealTimeUpdates_hook (run [?a, ?c0]) = None \<longrightarrow> Dashboard_hook (run [?a, ?c0]) \<noteq> None \<longrightarrow>
      socket (run [?a, ?c0]) = Some 0 \<longrightarrow>
      isConnected (run ([?a, ?c0] @ [Render_RealTimeUpdates])) = connected (transports (run [?a, ?c0]) ! 0)"
    by (rule t[of "[?a, ?c0]" 0,
          THEN conjunct2, THEN conjunct2, THEN conjunct2, THEN conjunct2, THEN conjunct2, THEN conjunct1])
  with m1 m2 m3 m4 have sixth: "isConnected (run ([?a, ?c0] @ [Render_RealTimeUpdates]))" by simp
  have k: "RealTimeUpdates_hook (run [?a, ?c0, Render_RealTimeUpdates]) = Some (Some 0)"
    by (simp add: world_defs)
  have "isConnected (run ([?a, ?c0, Render_RealTimeUpdates] @ [?d0])) =
      (if RealTimeUpdates_hook (run [?a, ?c0, Render_RealTimeUpdates]) = Some (Some 0)
          \<and> ''disconnect'' = ''connect'' then True
       else if RealTimeUpdates_hook (run [?a, ?c0, Render_RealTimeUpdates]) = Some (Some 0)
          \<and> ''disconnect'' = ''disconnect'' then False
       else isConnected (run [?a, ?c0, Render_RealTimeUpdates]))"
    by (rule t[of "[?a, ?c0, Render_RealTimeUpdates]" 0 "''disconnect''" "always sample_env" JNull,
          THEN conjunct2, THEN conjunct1])
  with k have seventh: "\<not> isConnected (run ([?a, ?c0, Render_RealTimeUpdates] @ [?d0]))" by simp
  from first second third fourth fifth sixth seventh show ?thesis by (intro conjI)
qed

subsection \<open>C10: one message changes the head and drops at most the tail\<close>

text \<open>
  Claim C10. The listener of a channel replaces the feed by the new record followed by
  the first 49 records of the previous feed: all of them when there were fewer than 50,
  all but the last when there were 50. Every record that stays keeps its content and moves
  one place down.
\<close>

theorem addUpdate_frame:
  "updates (run_listener e d (RealTimeUpdates_update ty) w) = newUpdate e ty d # take 49 (updates w)
   \<and> (length (updates w) < 50 \<longrightarrow>
        updates (run_listener e d (RealTimeUpdates_update ty) w) = newUpdate e ty d # updates w)
   \<and> (length (updates w) = 50 \<longrightarrow>
        updates (run_listener e d (RealTimeUpdates_update ty) w) = newUpdate e ty d # butlast (updates w))
   \<and> (\<forall>i. i < 49 \<longrightarrow> i < length (updates w) \<longrightarrow>
        updates (run_listener e d (RealTimeUpdates_update ty) w) ! Suc i = updates w ! i)"
  by (simp add: addUpdate_def butlast_conv_take)

theorem addUpdate_frame_witness:
  "length (replicate 50 (newUpdate sample_env report_update JNull)) = 50
   \<and> addUpdate sample_env disaster_update (JNum 1) (replicate 50 (newUpdate sample_env report_update JNull))
       = newUpdate sample_env disaster_update (JNum 1) # replicate 49 (newUpdate sample_env report_update JNull)
   \<and> addUpdate sample_env disaster_update (JNum 1) [newUpdate sample_env report_update JNull]
       = [newUpdate sample_env disaster_update (JNum 1), newUpdate sample_env report_update JNull]
   \<and> addUpdate sample_env disaster_update (JNum 1) [newUpdate sample_env report_update JNull] ! Suc 0
       = newUpdate sample_env report_update JNull"
proof -
  let ?full = "initial\<lparr> updates := replicate 50 (newUpdate sample_env report_update JNull) \<rparr>"
  let ?one = "initial\<lparr> updates := [newUpdate sample_env report_update JNull] \<rparr>"
  note full = addUpdate_frame[of sample_env "JNum 1" disaster_update ?full]
  note one = addUpdate_frame[of sample_env "JNum 1" disaster_update ?one]
  have l: "length (replicate 50 (newUpdate sample_env report_update JNull)) = 50" by simp
  have "length (updates ?full) = 50 \<longrightarrow>
      updates (run_listener sample_env (JNum 1) (RealTimeUpdates_update disaster_update) ?full)
        = newUpdate sample_env disaster_update (JNum 1) # butlast (updates ?full)"
    by (rule full[THEN conjunct2, THEN conjunct2, THEN conjunct1])
  then have a: "addUpdate sample_env disaster_update (JNum 1) (replicate 50 (newUpdate sample_env report_update JNull))
       = newUpdate sample_env disaster_update (JNum 1) # replicate 49 (newUpdate sample_env report_update JNull)"
    by (simp add: butlast_conv_take)
  have "length (updates ?one) < 50 \<longrightarrow>
      updates (run_listener sample_env (JNum 1) (RealTimeUpdates_update disaster_update) ?one)
        = newUpdate sample_env disaster_update (JNum 1) # updates ?one"
    by (rule one[THEN conjunct2, THEN conjunct1])
  then have b: "addUpdate sample_env disaster_update (JNum 1) [newUpdate sample_env report_update JNull]
       = [newUpdate sample_env disaster_update (JNum 1), newUpdate sample_env report_update JNull]"
    by simp
  have "\<forall>i. i < 49 \<longrightarrow> i < length (updates ?one) \<longrightarrow>
        updates (run_listener sample_env (JNum 1) (RealTimeUpdates_update disaster_update) ?one) ! Suc i = updates ?one ! i"
    by (rule one[THEN conjunct2, THEN conjunct2, THEN conjunct2])
  then have "0 < (49::nat) \<longrightarrow> 0 < length (updates ?one) \<longrightarrow>
        updates (run_listener sample_env (JNum 1) (RealTimeUpdates_update disaster_update) ?one) ! Suc 0 = updates ?one ! 0"
    by (rule spec)
  then have c: "addUpdate sample_env disaster_update (JNum 1) [newUpdate sample_env report_update JNull] ! Suc 0
       = newUpdate sample_env report_update JNull"
    by simp
  from l a b c show ?thesis by (intro conjI)
qed

end
